theory Spec2Isabelle
  imports Complex_Main "HOL-Library.Log_Nat" "HOL-Library.List_Lexorder" "HOL-Library.Char_ord"
begin

section \<open>Data received from the backend\<close>

text \<open>
  The interfaces of \<^verbatim>\<open>BatchReviewComponent.tsx\<close>. A JSON number is a finite number and is
  modelled as a rational; the rounding of IEEE doubles is not modelled. Field names follow the
  source; where two interfaces use one field name, the later one gets a prefix.
\<close>

record proposed_change =
  change_item_name :: string
  change_action :: string

record PendingUpdate =
  update_id :: string
  updated_by_name :: string
  updated_by_email :: string
  proposed_changes :: "proposed_change list"
  update_created_at :: string

record GroupedRequest =
  expense_id :: string
  expense_description :: string
  expense_total :: rat
  group_name :: string
  request_count :: nat
  requests :: "PendingUpdate list"
  unique_users :: "string list"

record member_difference =
  original_amount :: rat
  new_amount :: rat
  amount_difference :: rat
  percentage_change :: rat

record item_change =
  item_name :: string
  original_members :: "string list"
  new_members :: "string list"
  added_members :: "string list"
  removed_members :: "string list"
  item_price :: rat
  original_split_per_person :: rat
  new_split_per_person :: rat
  member_count_change :: int

record validation_result =
  total_matches :: bool
  original_total :: rat
  new_total :: rat
  difference :: rat

record preview_summary =
  items_affected :: nat
  members_affected :: nat
  total_requests :: nat

record PreviewData =
  preview_expense_id :: string
  preview_expense_description :: string
  preview_expense_total :: rat
  original_splits :: "(string \<times> rat) list"
  new_splits :: "(string \<times> rat) list"
  member_differences :: "(string \<times> member_difference) list"
  item_changes :: "item_change list"
  validation :: validation_result
  summary :: preview_summary

section \<open>Outcomes of a fetch\<close>

text \<open>
  A \<^verbatim>\<open>fetch\<close> inside \<^verbatim>\<open>try\<close> either throws (the \<^verbatim>\<open>catch\<close> branch runs) or yields a
  response with a status; \<^verbatim>\<open>response.ok\<close> holds for the statuses 200 to 299.
  \<^verbatim>\<open>await response.json()\<close> is inside the \<^verbatim>\<open>try\<close> as well: when the body is not JSON
  it throws and the \<^verbatim>\<open>catch\<close> branch runs; \<open>json\<close> is \<open>None\<close> then. A body that parses is
  taken to be an object, as the handlers read it: \<open>ok_body\<close> is what a handler reads of it
  when the response is OK, and \<open>detail\<close> is the text that the template literal gives for
  \<^verbatim>\<open>error.detail\<close>, read otherwise.
\<close>

record 'a json_body =
  ok_body :: 'a
  detail :: string

record 'a http_response =
  status :: nat
  json :: "'a json_body option"

datatype 'a fetch_result = Thrown | Response "'a http_response"

definition ok :: "'a http_response \<Rightarrow> bool" where
  "ok r = (200 \<le> status r \<and> status r \<le> 299)"

text \<open>The bodies the handlers read.\<close>

record message_body =
  message :: string

record status_body =
  workflow_status :: string

record preview_body =
  preview_status :: string
  preview_data :: PreviewData
  comment_preview :: "string option"
  preview_message :: string

record groups_body =
  grouped_requests :: "GroupedRequest list"

section \<open>The state of BatchReviewComponent\<close>

datatype workflow_step = Decisions | Preview | Completed

record batch_review =
  groupedRequests :: "GroupedRequest list"
  loading :: bool
  selectedExpense :: "string option"
  selectedRequests :: "string set"
  rejectedRequests :: "string set"
  preview :: "PreviewData option"
  workflowStep :: workflow_step
  processing :: bool
  adminNotes :: string
  expenseStatus :: "status_body option"
  commentPreview :: "string option"

text \<open>The initial values of the \<^verbatim>\<open>useState\<close> hooks.\<close>

definition initial_state :: batch_review where
  "initial_state =
     \<lparr>groupedRequests = [], loading = True, selectedExpense = None,
      selectedRequests = {}, rejectedRequests = {}, preview = None,
      workflowStep = Decisions, processing = False, adminNotes = [],
      expenseStatus = None, commentPreview = None\<rparr>"

subsection \<open>Handlers\<close>

text \<open>
  A handler is a function from the state before to the state after. An async handler is cut
  at its awaits: one part runs at the click, one when the response arrives, and so on; what
  the network answers is an argument. A part yields the alert it shows, the state it leaves
  and the requests whose answers it then waits for. (The await of the token and the await of
  the request are one: no state is written between them.)
\<close>

datatype request =
    GroupsRequest
  | StatusRequest
  | CommitRequest
  | CommitStatusRequest
  | PreviewRequest
  | ApplyRequest
  | ApplyStatusRequest
  | ApplyGroupsRequest

type_synonym outcome = "string option \<times> batch_review \<times> request list"

text \<open>
  \<^verbatim>\<open>if (!selectedExpense) return\<close> and \<^verbatim>\<open>if (selectedExpense)\<close> test a value of type
  \<^verbatim>\<open>string | null\<close>: null and the empty string are falsy.
\<close>

definition truthy :: "string option \<Rightarrow> bool" where
  "truthy v = (case v of None \<Rightarrow> False | Some x \<Rightarrow> x \<noteq> [])"

definition fetchGroupedRequests ::
    "groups_body fetch_result \<Rightarrow> batch_review \<Rightarrow> batch_review" where
  "fetchGroupedRequests res s =
     (case res of
        Thrown \<Rightarrow> s
      | Response r \<Rightarrow>
          (if ok r then
             (case json r of
                None \<Rightarrow> s
              | Some j \<Rightarrow> s\<lparr>groupedRequests := grouped_requests (ok_body j)\<rparr>)
           else s))
     \<lparr>loading := False\<rparr>"

definition checkExpenseStatus ::
    "status_body fetch_result \<Rightarrow> batch_review \<Rightarrow> batch_review" where
  "checkExpenseStatus res s =
     (case res of
        Thrown \<Rightarrow> s
      | Response r \<Rightarrow>
          (if ok r then
             (case json r of
                None \<Rightarrow> s
              | Some j \<Rightarrow>
                  (let s1 = s\<lparr>expenseStatus := Some (ok_body j)\<rparr>;
                       ws = workflow_status (ok_body j)
                   in if ws = ''needs_decisions'' then s1\<lparr>workflowStep := Decisions\<rparr>
                      else if ws = ''ready_for_preview'' then s1\<lparr>workflowStep := Preview\<rparr>
                      else if ws = ''completed'' then s1\<lparr>workflowStep := Completed\<rparr>
                      else s1))
           else s))"

definition handleExpenseSelect :: "string \<Rightarrow> batch_review \<Rightarrow> batch_review" where
  "handleExpenseSelect expenseId s =
     s\<lparr>selectedExpense := Some expenseId,
       selectedRequests := {},
       rejectedRequests := {},
       preview := None,
       workflowStep := Decisions\<rparr>"

datatype decision = Approve | Reject

fun toggleRequestSelection :: "string \<Rightarrow> decision \<Rightarrow> batch_review \<Rightarrow> batch_review" where
  "toggleRequestSelection requestId Approve s =
     (if requestId \<in> selectedRequests s
      then s\<lparr>selectedRequests := selectedRequests s - {requestId},
             rejectedRequests := rejectedRequests s\<rparr>
      else s\<lparr>selectedRequests := insert requestId (selectedRequests s),
             rejectedRequests := rejectedRequests s - {requestId}\<rparr>)"
| "toggleRequestSelection requestId Reject s =
     (if requestId \<in> rejectedRequests s
      then s\<lparr>selectedRequests := selectedRequests s,
             rejectedRequests := rejectedRequests s - {requestId}\<rparr>
      else s\<lparr>selectedRequests := selectedRequests s - {requestId},
             rejectedRequests := insert requestId (rejectedRequests s)\<rparr>)"

text \<open>The inline handler of the button "Go Back to Decisions".\<close>

definition goBackToDecisions :: "batch_review \<Rightarrow> batch_review" where
  "goBackToDecisions s =
     s\<lparr>preview := None, commentPreview := None, workflowStep := Decisions\<rparr>"

text \<open>The \<^verbatim>\<open>onChange\<close> handler of the admin notes.\<close>

definition editAdminNotes :: "string \<Rightarrow> batch_review \<Rightarrow> batch_review" where
  "editAdminNotes v s = s\<lparr>adminNotes := v\<rparr>"

text \<open>
  The alert texts begin with an emoji; a string here is a list of bytes, so the emoji is
  written as its UTF-8 bytes.
\<close>

definition cross_mark :: string where
  "cross_mark = [CHR 0xE2, CHR 0x9D, CHR 0x8C]"

definition check_mark :: string where
  "check_mark = [CHR 0xE2, CHR 0x9C, CHR 0x85]"

definition party_popper :: string where
  "party_popper = [CHR 0xF0, CHR 0x9F, CHR 0x8E, CHR 0x89]"

definition newline :: string where
  "newline = [CHR 0x0A]"

text \<open>The JSON body that \<^verbatim>\<open>commitDecisions\<close> posts.\<close>

record commit_body =
  commit_expense_id :: string
  approved_request_ids :: "string set"
  rejected_request_ids :: "string set"
  admin_notes :: string

definition commit_request_body :: "string \<Rightarrow> batch_review \<Rightarrow> commit_body" where
  "commit_request_body e s =
     \<lparr>commit_expense_id = e,
      approved_request_ids = selectedRequests s,
      rejected_request_ids = rejectedRequests s,
      admin_notes = adminNotes s\<rparr>"

text \<open>
  Step 1, \<^verbatim>\<open>commitDecisions\<close>: the click; the answer to the commit request, after which a
  successful commit awaits \<^verbatim>\<open>checkExpenseStatus\<close>; the answer to that status request, after
  which the \<^verbatim>\<open>finally\<close> block runs.
\<close>

definition commitDecisions_click :: "batch_review \<Rightarrow> outcome" where
  "commitDecisions_click s =
     (if \<not> truthy (selectedExpense s) then (None, s, [])
      else (None, s\<lparr>processing := True\<rparr>, [CommitRequest]))"

definition commitDecisions_response ::
    "message_body fetch_result \<Rightarrow> batch_review \<Rightarrow> outcome" where
  "commitDecisions_response res s =
     (case res of
        Thrown \<Rightarrow>
          (Some (cross_mark @ '' Network error occurred''), s\<lparr>processing := False\<rparr>, [])
      | Response r \<Rightarrow>
          (case json r of
             None \<Rightarrow>
               (Some (cross_mark @ '' Network error occurred''), s\<lparr>processing := False\<rparr>, [])
           | Some j \<Rightarrow>
               (if ok r then
                  (Some (check_mark @ '' Decisions committed successfully!'' @ newline
                          @ message (ok_body j)),
                   s\<lparr>workflowStep := Preview\<rparr>,
                   [CommitStatusRequest])
                else
                  (Some (cross_mark @ '' Error: '' @ detail j),
                   s\<lparr>processing := False\<rparr>,
                   []))))"

definition commitDecisions_status ::
    "status_body fetch_result \<Rightarrow> batch_review \<Rightarrow> outcome" where
  "commitDecisions_status res s = (None, (checkExpenseStatus res s)\<lparr>processing := False\<rparr>, [])"

text \<open>Step 2, \<^verbatim>\<open>previewSplitwiseChanges\<close>: the click and the answer.\<close>

definition previewSplitwiseChanges_click :: "batch_review \<Rightarrow> outcome" where
  "previewSplitwiseChanges_click s =
     (if \<not> truthy (selectedExpense s) then (None, s, [])
      else (None, s\<lparr>processing := True\<rparr>, [PreviewRequest]))"

definition previewSplitwiseChanges_response ::
    "preview_body fetch_result \<Rightarrow> batch_review \<Rightarrow> outcome" where
  "previewSplitwiseChanges_response res s =
     (case res of
        Thrown \<Rightarrow>
          (Some (cross_mark @ '' Network error occurred''), s\<lparr>processing := False\<rparr>, [])
      | Response r \<Rightarrow>
          (case json r of
             None \<Rightarrow>
               (Some (cross_mark @ '' Network error occurred''), s\<lparr>processing := False\<rparr>, [])
           | Some j \<Rightarrow>
               (if ok r then
                  (if preview_status (ok_body j) = ''preview_ready'' then
                     (None,
                      s\<lparr>preview := Some (preview_data (ok_body j)),
                        commentPreview := comment_preview (ok_body j)\<rparr>
                       \<lparr>processing := False\<rparr>,
                      [])
                   else
                     (Some (preview_message (ok_body j)), s\<lparr>processing := False\<rparr>, []))
                else
                  (Some (cross_mark @ '' Error: '' @ detail j),
                   s\<lparr>processing := False\<rparr>,
                   []))))"

text \<open>
  Step 3, \<^verbatim>\<open>applyToSplitwiseAndMongoDB\<close>: the click; the answer to the apply request, after
  which a success awaits \<^verbatim>\<open>checkExpenseStatus\<close>; the answer to that status request, after
  which \<^verbatim>\<open>fetchGroupedRequests\<close> is awaited; the answer to that, after which the
  \<^verbatim>\<open>finally\<close> block runs.
\<close>

definition applyToSplitwiseAndMongoDB_click :: "batch_review \<Rightarrow> outcome" where
  "applyToSplitwiseAndMongoDB_click s =
     (if \<not> truthy (selectedExpense s) then (None, s, [])
      else (None, s\<lparr>processing := True\<rparr>, [ApplyRequest]))"

definition applyToSplitwiseAndMongoDB_response ::
    "message_body fetch_result \<Rightarrow> batch_review \<Rightarrow> outcome" where
  "applyToSplitwiseAndMongoDB_response res s =
     (case res of
        Thrown \<Rightarrow>
          (Some (cross_mark @ '' Network error occurred''), s\<lparr>processing := False\<rparr>, [])
      | Response r \<Rightarrow>
          (case json r of
             None \<Rightarrow>
               (Some (cross_mark @ '' Network error occurred''), s\<lparr>processing := False\<rparr>, [])
           | Some j \<Rightarrow>
               (if ok r then
                  (Some (party_popper @ '' SUCCESS!'' @ newline @ message (ok_body j)),
                   s\<lparr>workflowStep := Completed\<rparr>,
                   [ApplyStatusRequest])
                else
                  (Some (cross_mark @ '' CRITICAL ERROR:'' @ newline @ detail j),
                   s\<lparr>processing := False\<rparr>,
                   []))))"

definition applyToSplitwiseAndMongoDB_status ::
    "status_body fetch_result \<Rightarrow> batch_review \<Rightarrow> outcome" where
  "applyToSplitwiseAndMongoDB_status res s =
     (None, checkExpenseStatus res s, [ApplyGroupsRequest])"

definition applyToSplitwiseAndMongoDB_groups ::
    "groups_body fetch_result \<Rightarrow> batch_review \<Rightarrow> outcome" where
  "applyToSplitwiseAndMongoDB_groups res s =
     (None, (fetchGroupedRequests res s)\<lparr>processing := False\<rparr>, [])"

text \<open>
  The inline handler of the button "Process Another Group"; its call of
  \<^verbatim>\<open>fetchGroupedRequests\<close> is not awaited.
\<close>

definition processAnotherGroup :: "batch_review \<Rightarrow> outcome" where
  "processAnotherGroup s =
     (None, s\<lparr>selectedExpense := None, workflowStep := Decisions\<rparr>, [GroupsRequest])"

text \<open>
  \<^verbatim>\<open>useEffect(() => { if (selectedExpense) checkExpenseStatus(selectedExpense) },
  [selectedExpense])\<close>: after a change of the selected expense to a truthy value, a status
  request is sent. \<open>before\<close> is the selected expense of the previous render.
\<close>

definition selectedExpense_effect :: "string option \<Rightarrow> batch_review \<Rightarrow> request list" where
  "selectedExpense_effect before s =
     (if selectedExpense s \<noteq> before \<and> truthy (selectedExpense s) then [StatusRequest]
      else [])"

subsection \<open>What is rendered\<close>

definition selectedExpenseData :: "batch_review \<Rightarrow> GroupedRequest option" where
  "selectedExpenseData s =
     find (\<lambda>g. Some (expense_id g) = selectedExpense s) (groupedRequests s)"

text \<open>
  While \<open>loading\<close> holds the component renders a spinner only. The three stage panels are
  rendered under the conditions of the JSX.
\<close>

definition decisions_panel :: "batch_review \<Rightarrow> bool" where
  "decisions_panel s =
     (\<not> loading s \<and> selectedExpenseData s \<noteq> None \<and> workflowStep s = Decisions)"

definition preview_panel :: "batch_review \<Rightarrow> bool" where
  "preview_panel s =
     (\<not> loading s \<and> selectedExpenseData s \<noteq> None \<and> workflowStep s = Preview)"

definition completed_panel :: "batch_review \<Rightarrow> bool" where
  "completed_panel s = (\<not> loading s \<and> workflowStep s = Completed)"

text \<open>The \<^verbatim>\<open>disabled\<close> attributes of the commit and the apply button.\<close>

definition commit_disabled :: "batch_review \<Rightarrow> bool" where
  "commit_disabled s =
     (processing s \<or> (selectedRequests s = {} \<and> rejectedRequests s = {}))"

definition apply_disabled :: "PreviewData \<Rightarrow> batch_review \<Rightarrow> bool" where
  "apply_disabled p s = (processing s \<or> \<not> total_matches (validation p))"

text \<open>
  The apply button exists inside the preview panel, inside \<^verbatim>\<open>{preview && (...)}\<close>, and can
  be clicked when it is not disabled.
\<close>

definition apply_available :: "batch_review \<Rightarrow> bool" where
  "apply_available s =
     (preview_panel s \<and>
      (case preview s of None \<Rightarrow> False | Some p \<Rightarrow> \<not> apply_disabled p s))"

definition go_back_available :: "batch_review \<Rightarrow> bool" where
  "go_back_available s = (preview_panel s \<and> preview s \<noteq> None)"

subsection \<open>Transitions\<close>

text \<open>
  The component together with the requests that are in flight and the alerts shown so far.
  On mount the list of expenses is requested.
\<close>

record system =
  component :: batch_review
  pending :: "request list"
  alerts :: "string list"

definition initial_system :: system where
  "initial_system = \<lparr>component = initial_state, pending = [GroupsRequest], alerts = []\<rparr>"

text \<open>
  An event is the arrival of the answer to a request in flight, or a user action on a
  rendered control.
\<close>

datatype event =
    GroupsArrived "groups_body fetch_result"
  | StatusArrived "status_body fetch_result"
  | CommitArrived "message_body fetch_result"
  | CommitStatusArrived "status_body fetch_result"
  | PreviewArrived "preview_body fetch_result"
  | ApplyArrived "message_body fetch_result"
  | ApplyStatusArrived "status_body fetch_result"
  | ApplyGroupsArrived "groups_body fetch_result"
  | ExpenseSelect string
  | Toggle string decision
  | EditNotes string
  | CommitClick
  | PreviewClick
  | ApplyClick
  | GoBack
  | ProcessAnother

fun answers :: "event \<Rightarrow> request option" where
  "answers (GroupsArrived r) = Some GroupsRequest"
| "answers (StatusArrived r) = Some StatusRequest"
| "answers (CommitArrived r) = Some CommitRequest"
| "answers (CommitStatusArrived r) = Some CommitStatusRequest"
| "answers (PreviewArrived r) = Some PreviewRequest"
| "answers (ApplyArrived r) = Some ApplyRequest"
| "answers (ApplyStatusArrived r) = Some ApplyStatusRequest"
| "answers (ApplyGroupsArrived r) = Some ApplyGroupsRequest"
| "answers (ExpenseSelect e) = None"
| "answers (Toggle i d) = None"
| "answers (EditNotes v) = None"
| "answers CommitClick = None"
| "answers PreviewClick = None"
| "answers ApplyClick = None"
| "answers GoBack = None"
| "answers ProcessAnother = None"

text \<open>The control of a user action is rendered and not disabled.\<close>

fun rendered :: "event \<Rightarrow> batch_review \<Rightarrow> bool" where
  "rendered (ExpenseSelect e) s =
     (\<not> loading s \<and> e \<in> set (map expense_id (groupedRequests s)))"
| "rendered (Toggle i d) s =
     (decisions_panel s \<and>
      (case selectedExpenseData s of
         None \<Rightarrow> False
       | Some g \<Rightarrow> i \<in> set (map update_id (requests g))))"
| "rendered (EditNotes v) s = decisions_panel s"
| "rendered CommitClick s = (decisions_panel s \<and> \<not> commit_disabled s)"
| "rendered PreviewClick s = (preview_panel s \<and> \<not> processing s)"
| "rendered ApplyClick s = apply_available s"
| "rendered GoBack s = go_back_available s"
| "rendered ProcessAnother s = completed_panel s"
| "rendered ev s = True"

fun handler :: "event \<Rightarrow> batch_review \<Rightarrow> outcome" where
  "handler (GroupsArrived r) s = (None, fetchGroupedRequests r s, [])"
| "handler (StatusArrived r) s = (None, checkExpenseStatus r s, [])"
| "handler (CommitArrived r) s = commitDecisions_response r s"
| "handler (CommitStatusArrived r) s = commitDecisions_status r s"
| "handler (PreviewArrived r) s = previewSplitwiseChanges_response r s"
| "handler (ApplyArrived r) s = applyToSplitwiseAndMongoDB_response r s"
| "handler (ApplyStatusArrived r) s = applyToSplitwiseAndMongoDB_status r s"
| "handler (ApplyGroupsArrived r) s = applyToSplitwiseAndMongoDB_groups r s"
| "handler (ExpenseSelect e) s = (None, handleExpenseSelect e s, [])"
| "handler (Toggle i d) s = (None, toggleRequestSelection i d s, [])"
| "handler (EditNotes v) s = (None, editAdminNotes v s, [])"
| "handler CommitClick s = commitDecisions_click s"
| "handler PreviewClick s = previewSplitwiseChanges_click s"
| "handler ApplyClick s = applyToSplitwiseAndMongoDB_click s"
| "handler GoBack s = (None, goBackToDecisions s, [])"
| "handler ProcessAnother s = processAnotherGroup s"

definition enabled :: "event \<Rightarrow> system \<Rightarrow> bool" where
  "enabled ev s =
     (case answers ev of
        Some q \<Rightarrow> q \<in> set (pending s)
      | None \<Rightarrow> rendered ev (component s))"

text \<open>
  The event's handler runs on the component; the answered request is no longer in flight,
  the requests the handler waits for are, and so is the status request of the effect when the
  selected expense has changed.
\<close>

definition fire :: "event \<Rightarrow> system \<Rightarrow> system" where
  "fire ev s =
     (case handler ev (component s) of
        (a, c, qs) \<Rightarrow>
          \<lparr>component = c,
           pending =
             (case answers ev of Some q \<Rightarrow> remove1 q (pending s) | None \<Rightarrow> pending s)
             @ qs @ selectedExpense_effect (selectedExpense (component s)) c,
           alerts = alerts s @ (case a of None \<Rightarrow> [] | Some m \<Rightarrow> [m])\<rparr>)"

text \<open>An event that is not enabled cannot happen: the state stays as it is.\<close>

definition step :: "event \<Rightarrow> system \<Rightarrow> system" where
  "step ev s = (if enabled ev s then fire ev s else s)"

definition run :: "event list \<Rightarrow> system \<Rightarrow> system" where
  "run evs s = fold step evs s"

subsection \<open>The alert of a failed apply\<close>



subsection \<open>Example data\<close>

definition example_update :: PendingUpdate where
  "example_update =
     \<lparr>update_id = ''req1'', updated_by_name = ''Dana'',
      updated_by_email = ''dana@example.com'',
      proposed_changes = [\<lparr>change_item_name = ''Pizza'', change_action = ''join''\<rparr>],
      update_created_at = ''2025-01-01T00:00:00Z''\<rparr>"

definition example_group :: GroupedRequest where
  "example_group =
     \<lparr>expense_id = ''exp1'', expense_description = ''Dinner'', expense_total = 60,
      group_name = ''Flat'', request_count = 1, requests = [example_update],
      unique_users = [''Dana'']\<rparr>"

definition groups_ok :: "groups_body fetch_result" where
  "groups_ok =
     Response
       \<lparr>status = 200,
        json = Some \<lparr>ok_body = \<lparr>grouped_requests = [example_group]\<rparr>, detail = []\<rparr>\<rparr>"

definition status_ok :: "string \<Rightarrow> status_body fetch_result" where
  "status_ok ws =
     Response
       \<lparr>status = 200, json = Some \<lparr>ok_body = \<lparr>workflow_status = ws\<rparr>, detail = []\<rparr>\<rparr>"

definition commit_ok :: "message_body fetch_result" where
  "commit_ok =
     Response
       \<lparr>status = 200,
        json = Some \<lparr>ok_body = \<lparr>message = ''1 approved, 0 rejected''\<rparr>, detail = []\<rparr>\<rparr>"

definition preview_ok :: "PreviewData \<Rightarrow> preview_body fetch_result" where
  "preview_ok p =
     Response
       \<lparr>status = 200,
        json =
          Some \<lparr>ok_body = \<lparr>preview_status = ''preview_ready'', preview_data = p,
                            comment_preview = Some ''Dana: Pizza'', preview_message = []\<rparr>,
                detail = []\<rparr>\<rparr>"

text \<open>A preview whose validation failed: the new total is 59.50 against 60.\<close>

definition failing_preview :: PreviewData where
  "failing_preview =
     \<lparr>preview_expense_id = ''exp1'', preview_expense_description = ''Dinner'',
      preview_expense_total = 60, original_splits = [], new_splits = [],
      member_differences = [], item_changes = [],
      validation = \<lparr>total_matches = False, original_total = 60, new_total = 119 / 2,
                    difference = - (1 / 2)\<rparr>,
      summary = \<lparr>items_affected = 0, members_affected = 0, total_requests = 1\<rparr>\<rparr>"


text \<open>
  The admin's way to a preview: the list of expenses arrives, the example expense is
  selected, its request is approved, the decision is committed, and the preview \<open>p\<close> arrives.
\<close>

definition workflow_to_preview :: "PreviewData \<Rightarrow> event list" where
  "workflow_to_preview p =
     [GroupsArrived groups_ok, ExpenseSelect ''exp1'',
      StatusArrived (status_ok ''needs_decisions''), Toggle ''req1'' Approve, CommitClick,
      CommitArrived commit_ok, CommitStatusArrived (status_ok ''ready_for_preview''),
      PreviewClick, PreviewArrived (preview_ok p)]"

text \<open>The state this leads to.\<close>

definition preview_stage :: "PreviewData \<Rightarrow> system" where
  "preview_stage p =
     \<lparr>component =
        \<lparr>groupedRequests = [example_group], loading = False,
         selectedExpense = Some ''exp1'', selectedRequests = {''req1''},
         rejectedRequests = {}, preview = Some p, workflowStep = Preview,
         processing = False, adminNotes = [],
         expenseStatus = Some \<lparr>workflow_status = ''ready_for_preview''\<rparr>,
         commentPreview = Some ''Dana: Pizza''\<rparr>,
      pending = [],
      alerts = [check_mark @ '' Decisions committed successfully!'' @ newline
                  @ ''1 approved, 0 rejected'']\<rparr>"



section \<open>The member-facing views\<close>

subsection \<open>JavaScript numbers\<close>

text \<open>
  A JavaScript number is an IEEE double: a finite double, written here as the rational it
  stands for, an infinity or NaN. The negative zero is not told from zero; \<^verbatim>\<open>toFixed\<close>
  shows both alike.
\<close>

datatype js_number = Num rat | PosInfinity | NegInfinity | NaN

fun js_finite :: "js_number \<Rightarrow> bool" where
  "js_finite (Num q) = True"
| "js_finite PosInfinity = False"
| "js_finite NegInfinity = False"
| "js_finite NaN = False"

text \<open>
  The result of an arithmetic operation is the double nearest to the exact result, the one
  with the even significand when two are equally near. \<open>binade x\<close> is the exponent \<open>e\<close> with
  \<open>2\<^sup>e \<le> x < 2\<^sup>e\<^sup>+\<^sup>1\<close>, for a positive \<open>x\<close>. The doubles near \<open>x\<close> are the multiples of
  \<open>2\<close> to the \<open>ulp_exponent x\<close>: a significand has 53 bits, and below \<open>2\<^sup>-\<^sup>1\<^sup>0\<^sup>2\<^sup>2\<close> the doubles
  are the multiples of \<open>2\<^sup>-\<^sup>1\<^sup>0\<^sup>7\<^sup>4\<close>.
\<close>

definition binade :: "rat \<Rightarrow> int" where
  "binade x =
     (if 1 \<le> x then int (floorlog 2 (nat \<lfloor>x\<rfloor>)) - 1
      else - int (floorlog 2 (nat (\<lceil>1 / x\<rceil> - 1))))"

definition ulp_exponent :: "rat \<Rightarrow> int" where
  "ulp_exponent x = max (binade x) (- 1022) - 52"

definition round_half_even :: "rat \<Rightarrow> int" where
  "round_half_even x =
     (if x - of_int \<lfloor>x\<rfloor> < 1 / 2 then \<lfloor>x\<rfloor>
      else if 1 / 2 < x - of_int \<lfloor>x\<rfloor> then \<lfloor>x\<rfloor> + 1
      else if even \<lfloor>x\<rfloor> then \<lfloor>x\<rfloor>
      else \<lfloor>x\<rfloor> + 1)"

definition nearest_multiple :: "rat \<Rightarrow> rat" where
  "nearest_multiple x =
     of_int (round_half_even (x / 2 powi ulp_exponent x)) * 2 powi ulp_exponent x"

text \<open>A result that rounds to \<open>2\<^sup>1\<^sup>0\<^sup>2\<^sup>4\<close> or more is an infinity.\<close>

definition round_to_double :: "rat \<Rightarrow> js_number" where
  "round_to_double q =
     (if q = 0 then Num 0
      else if 2 ^ 1024 \<le> nearest_multiple \<bar>q\<bar>
      then (if q < 0 then NegInfinity else PosInfinity)
      else Num (sgn q * nearest_multiple \<bar>q\<bar>))"

text \<open>The greatest finite double.\<close>

definition max_double :: rat where
  "max_double = (2 ^ 53 - 1) * 2 ^ 971"

text \<open>
  \<^verbatim>\<open>a / b\<close> for finite doubles \<open>a\<close> and \<open>b\<close>, the divisor not negative: dividing by zero
  does not throw, it gives \<^verbatim>\<open>Infinity\<close>, \<^verbatim>\<open>-Infinity\<close> or \<^verbatim>\<open>NaN\<close>.
\<close>

definition js_divide :: "rat \<Rightarrow> rat \<Rightarrow> js_number" where
  "js_divide a b =
     (if b \<noteq> 0 then round_to_double (a / b)
      else if 0 < a then PosInfinity
      else if a < 0 then NegInfinity
      else NaN)"

subsection \<open>formatCurrency\<close>

text \<open>The decimal digits of a natural number.\<close>

definition digit_char :: "nat \<Rightarrow> char" where
  "digit_char d = ''0123456789'' ! d"

function decimal :: "nat \<Rightarrow> string" where
  "decimal n = (if n < 10 then [digit_char n] else decimal (n div 10) @ [digit_char (n mod 10)])"
  by pat_completeness auto
termination
  by (relation "measure (\<lambda>n. n)") auto

declare decimal.simps [simp del]

text \<open>
  \<^verbatim>\<open>x.toFixed(2)\<close>: the text of a number that is not finite is its name; of a finite one, the
  sign and, for the absolute value \<open>x\<close>, the digits of the integer \<open>n\<close> for which \<open>n / 100 - x\<close>
  is nearest to zero, the larger \<open>n\<close> of two, with a point before the last two digits. From
  \<open>10\<^sup>2\<^sup>1\<close> on the text is the number in exponent notation, which is not spelled out here.
\<close>

definition hundredths :: "rat \<Rightarrow> nat" where
  "hundredths x = nat \<lfloor>x * 100 + 1 / 2\<rfloor>"

datatype shown = Text string | Exponent rat

definition toFixed2 :: "js_number \<Rightarrow> shown" where
  "toFixed2 v =
     (case v of
        NaN \<Rightarrow> Text ''NaN''
      | PosInfinity \<Rightarrow> Text ''Infinity''
      | NegInfinity \<Rightarrow> Text ''-Infinity''
      | Num x \<Rightarrow>
          (if 10 ^ 21 \<le> \<bar>x\<bar> then Exponent x
           else Text ((if x < 0 then ''-'' else [])
                      @ decimal (hundredths \<bar>x\<bar> div 100) @ ''.''
                      @ [digit_char (hundredths \<bar>x\<bar> mod 100 div 10),
                         digit_char (hundredths \<bar>x\<bar> mod 10)])))"

text \<open>\<^verbatim>\<open>`$${amount.toFixed(2)}`\<close>, in SplitDetail and in Dashboard alike.\<close>

definition formatCurrency :: "js_number \<Rightarrow> shown" where
  "formatCurrency amount =
     (case toFixed2 amount of Text t \<Rightarrow> Text (''$'' @ t) | Exponent x \<Rightarrow> Exponent x)"

subsection \<open>The split\<close>

text \<open>A price is a number parsed from JSON; it is taken to be a finite double.\<close>

record item =
  name :: string
  price :: rat
  members :: "string list"

record Split =
  split_id :: string
  splitwise_id :: string
  split_group_name :: string
  description :: string
  total_amount :: rat
  paid_by :: string
  items :: "item list"
  member_splits :: "(string \<times> rat) list"
  split_created_at :: string

subsection \<open>SplitDetail\<close>

definition isParticipating :: "string \<Rightarrow> item \<Rightarrow> bool" where
  "isParticipating memberName it = (memberName \<in> set (members it))"

definition splitAmount :: "item \<Rightarrow> js_number" where
  "splitAmount it = js_divide (price it) (of_nat (length (members it)))"

text \<open>
  What the card of an item shows: the total, the number of people, the amount per person,
  and "You owe" for a participant.
\<close>

record item_card =
  card_item :: item
  card_total :: shown
  split_among :: nat
  per_person :: shown
  participating :: bool
  you_owe :: "shown option"

definition item_card_of :: "string \<Rightarrow> item \<Rightarrow> item_card" where
  "item_card_of memberName it =
     \<lparr>card_item = it,
      card_total = formatCurrency (Num (price it)),
      split_among = length (members it),
      per_person = formatCurrency (splitAmount it),
      participating = isParticipating memberName it,
      you_owe =
        (if isParticipating memberName it then Some (formatCurrency (splitAmount it))
         else None)\<rparr>"

text \<open>\<^verbatim>\<open>split.items.map\<close>: one card for every item of the split.\<close>

definition split_detail_items :: "string \<Rightarrow> Split \<Rightarrow> item_card list" where
  "split_detail_items memberName sp = map (item_card_of memberName) (items sp)"

subsection \<open>Dashboard\<close>

text \<open>What a row of "Your Items" shows.\<close>

record your_item =
  row_item :: item
  shared_with :: nat
  share :: shown
  of_total :: shown

definition your_item_of :: "item \<Rightarrow> your_item" where
  "your_item_of it =
     \<lparr>row_item = it,
      shared_with = length (members it),
      share = formatCurrency (js_divide (price it) (of_nat (length (members it)))),
      of_total = formatCurrency (Num (price it))\<rparr>"

text \<open>
  "Your Items": \<^verbatim>\<open>split.items.filter(item => item.members.includes(member_name)).map\<close>.
\<close>

definition your_items :: "string \<Rightarrow> Split \<Rightarrow> your_item list" where
  "your_items member_name sp =
     map your_item_of (filter (\<lambda>it. member_name \<in> set (members it)) (items sp))"

subsection \<open>Example data\<close>

definition pizza :: item where
  "pizza = \<lparr>name = ''Pizza'', price = 30, members = [''A'', ''B'', ''C'']\<rparr>"

definition soda :: item where
  "soda = \<lparr>name = ''Soda'', price = 30, members = [''A'', ''B'']\<rparr>"

definition taxi :: item where
  "taxi = \<lparr>name = ''Taxi'', price = 10, members = [''A'', ''B'', ''C'']\<rparr>"

definition orphan :: item where
  "orphan = \<lparr>name = ''Tip'', price = 5, members = []\<rparr>"

definition split_of :: "item list \<Rightarrow> Split" where
  "split_of its =
     \<lparr>split_id = ''s1'', splitwise_id = ''exp1'', split_group_name = ''Flat'',
      description = ''Dinner'', total_amount = 60, paid_by = ''A'', items = its,
      member_splits = [], split_created_at = ''2025-01-01T00:00:00Z''\<rparr>"

section \<open>The admin page\<close>

record admin_page =
  isAdmin :: "bool option"
  admin_loading :: bool

definition admin_initial :: admin_page where
  "admin_initial = \<lparr>isAdmin = None, admin_loading = True\<rparr>"

text \<open>
  \<^verbatim>\<open>checkAdminStatus\<close>: \<open>isLoaded\<close> is the flag of \<^verbatim>\<open>useUser\<close>, \<open>res\<close> the outcome of the probe
  of the pending-updates endpoint. The \<^verbatim>\<open>return\<close> for \<^verbatim>\<open>!isLoaded\<close> is inside the
  \<^verbatim>\<open>try\<close>, so the \<^verbatim>\<open>finally\<close> block runs after it.
\<close>

definition checkAdminStatus :: "bool \<Rightarrow> unit fetch_result \<Rightarrow> admin_page \<Rightarrow> admin_page" where
  "checkAdminStatus isLoaded res s =
     (if \<not> isLoaded then s
      else
        (case res of
           Thrown \<Rightarrow> s\<lparr>isAdmin := Some False\<rparr>
         | Response r \<Rightarrow>
             (if status r = 403 then s\<lparr>isAdmin := Some False\<rparr>
              else if ok r then s\<lparr>isAdmin := Some True\<rparr>
              else s\<lparr>isAdmin := Some False\<rparr>)))
     \<lparr>admin_loading := False\<rparr>"

datatype admin_view = Spinner | AccessDenied | AdminDashboard

definition admin_render :: "admin_page \<Rightarrow> admin_view" where
  "admin_render s =
     (if admin_loading s then Spinner
      else if isAdmin s = Some False then AccessDenied
      else AdminDashboard)"

section \<open>Reconciliation\<close>

text \<open>
  The split calculator and the reconciliation validator run in the backend, which is not
  among the sources; the frontend only declares the shape of their result (\<open>PreviewData\<close>).
  The definitions of this section follow sections 3, 4.1, 4.2, 4.4 and 6 of the
  specification. Amounts are exact rationals.
\<close>

text \<open>
  Modelled from the spec: the action and the lifecycle status of a ChangeRequest (section 3),
  "action \<in> {join, leave}, lifecycle status \<in> {pending, approved, rejected}"; the backend's
  request records are missing.
\<close>

datatype request_action = Join | Leave

datatype lifecycle_status = Pending | Approved | Rejected

text \<open>
  Modelled from the spec: the ChangeRequest of section 3 (the backend's record is missing),
  "requester identity, target expense identifier, item name, action, lifecycle status,
  optional admin note, creation timestamp, optional processed timestamp", with its
  identifier. Timestamps are natural numbers.
\<close>

record ChangeRequest =
  request_id :: string
  requester :: string
  target_expense :: string
  target_item :: string
  action :: request_action
  lifecycle :: lifecycle_status
  admin_note :: "string option"
  created_at :: nat
  processed_at :: "nat option"

text \<open>
  Modelled from the spec: what the external ledger returns for an expense (section 6,
  \<^verbatim>\<open>getExpense\<close>; the backend's call is missing), "{description, total, items: [{name, price,
  members}]}", with the identifier of the expense.
\<close>

record ledger_expense =
  ledger_expense_id :: string
  ledger_description :: string
  ledger_total :: rat
  ledger_items :: "item list"

text \<open>
  Modelled from the spec: the reasons for which no preview is computed (sections 4.1 and
  4.4; the backend's errors are missing), an item that would end with no members and "no
  approved changes".
\<close>

datatype validation_error = ItemWithoutMembers string | NoApprovedChanges

text \<open>
  Modelled from the spec: the input of the split calculator, "the subset of ChangeRequests
  for that item that have been marked approved" (the backend's selection is missing).
\<close>

definition approved_for :: "string \<Rightarrow> item \<Rightarrow> ChangeRequest list \<Rightarrow> ChangeRequest list" where
  "approved_for e it rs =
     filter (\<lambda>r. target_expense r = e \<and> target_item r = name it \<and> lifecycle r = Approved) rs"

text \<open>
  Modelled from the spec: the rule for a requester with several requests on one item, "the
  later-created request for that (requester, item) pair wins; ties broken by request
  identifier ordering" (the backend's conflict resolution is missing). The greater identifier
  is taken as the later one.
\<close>

definition later_than :: "ChangeRequest \<Rightarrow> ChangeRequest \<Rightarrow> bool" where
  "later_than r' r =
     (created_at r < created_at r' \<or>
      (created_at r = created_at r' \<and> request_id r < request_id r'))"

text \<open>
  Modelled from the spec: the requests that count under that rule (the backend's conflict
  resolution is missing), those of a requester for which no later request of the same
  requester is among the approved requests of the item.
\<close>

definition winning_requests :: "ChangeRequest list \<Rightarrow> ChangeRequest list" where
  "winning_requests rs =
     filter (\<lambda>r. \<not> list_ex (\<lambda>r'. requester r' = requester r \<and> later_than r' r) rs) rs"

text \<open>
  Modelled from the spec: the new member set of section 4.1 (the backend's computation is
  missing), "new_members = current_members \<union> {requester | join, approved} - {requester |
  leave, approved}". Member sets are lists without duplicates.
\<close>

definition new_member_set :: "item \<Rightarrow> ChangeRequest list \<Rightarrow> string list" where
  "new_member_set it rs =
     (let joining = map requester (filter (\<lambda>r. action r = Join) (winning_requests rs));
          leaving = map requester (filter (\<lambda>r. action r = Leave) (winning_requests rs))
      in filter (\<lambda>m. m \<notin> set leaving) (remdups (members it @ joining)))"

text \<open>
  Modelled from the spec: the split calculator of section 4.1 (missing from the sources),
  "new per-person allocation = price / |new_members|", "zero-member result after removal is an
  error condition", with the output "per-item {original_members, new_members, added, removed,
  original_split_per_person, new_split_per_person}". The spec gives no original allocation
  for an item that had no member; it is 0 here.
\<close>

definition split_calculator :: "item \<Rightarrow> ChangeRequest list \<Rightarrow> validation_error + item_change" where
  "split_calculator it rs =
     (let orig = remdups (members it); new = new_member_set it rs
      in if new = [] then Inl (ItemWithoutMembers (name it))
         else Inr
           \<lparr>item_name = name it,
            original_members = orig,
            new_members = new,
            added_members = filter (\<lambda>m. m \<notin> set orig) new,
            removed_members = filter (\<lambda>m. m \<notin> set new) orig,
            item_price = price it,
            original_split_per_person =
              (if orig = [] then 0 else price it / of_nat (length orig)),
            new_split_per_person = price it / of_nat (length new),
            member_count_change = int (length new) - int (length orig)\<rparr>)"

text \<open>
  Modelled from the spec: the split calculator run over every item of the expense (section
  4.2, "all item-level outputs of 4.1 for one expense"; the backend's loop is missing). The
  first item that would end with no members stops it.
\<close>

fun split_all ::
    "string \<Rightarrow> item list \<Rightarrow> ChangeRequest list \<Rightarrow> validation_error + item_change list" where
  "split_all e [] rs = Inr []"
| "split_all e (it # its) rs =
     (case split_calculator it (approved_for e it rs) of
        Inl err \<Rightarrow> Inl err
      | Inr c \<Rightarrow>
          (case split_all e its rs of
             Inl err \<Rightarrow> Inl err
           | Inr cs \<Rightarrow> Inr (c # cs)))"

text \<open>
  Modelled from the spec: the aggregate of section 4.2 (the backend's computation is
  missing), "aggregate new_total_expense = sum of new_split_per_person \<times> |new_members| over
  items".
\<close>

definition aggregate_new_total :: "item_change list \<Rightarrow> rat" where
  "aggregate_new_total cs =
     sum_list (map (\<lambda>c. new_split_per_person c * of_nat (length (new_members c))) cs)"

text \<open>
  Modelled from the spec: the tolerance of section 4.2 (the backend's constant is missing),
  "a fixed rounding tolerance (one cent, accumulated over all items)".
\<close>

definition one_cent :: rat where
  "one_cent = 1 / 100"

text \<open>
  Modelled from the spec: the reconciliation validator of section 4.2 (missing from the
  sources), which compares the aggregate with the original expense total to within the
  tolerance. The result has the fields of \<^verbatim>\<open>PreviewData.validation\<close>; the difference is
  the new total minus the original one.
\<close>

definition reconciliation_validator :: "rat \<Rightarrow> item_change list \<Rightarrow> validation_result" where
  "reconciliation_validator expenseTotal cs =
     \<lparr>total_matches = (\<bar>aggregate_new_total cs - expenseTotal\<bar> \<le> one_cent),
      original_total = expenseTotal,
      new_total = aggregate_new_total cs,
      difference = aggregate_new_total cs - expenseTotal\<rparr>"

text \<open>
  Modelled from the spec: the part of the SplitPreview of section 3 that the reconciliation
  invariant is about (the backend's preview is missing), "per-item before/after member sets
  with added/removed lists, and a validation result".
\<close>

record SplitPreview =
  split_item_changes :: "item_change list"
  split_validation :: validation_result

text \<open>
  Modelled from the spec: \<^verbatim>\<open>preview(expense_id)\<close> of section 4.4 (missing from the sources),
  which "re-runs 4.1+4.2 over the current committed decisions" and "returns the failure reason
  (validation mismatch, or no approved changes) rather than throwing". A mismatch of the
  totals is reported in the validation result of the preview, which is what the frontend
  shows as "Validation Failed".
\<close>

definition previewChanges ::
    "ledger_expense \<Rightarrow> ChangeRequest list \<Rightarrow> validation_error + SplitPreview" where
  "previewChanges ex rs =
     (if filter (\<lambda>r. target_expense r = ledger_expense_id ex \<and> lifecycle r = Approved) rs = []
      then Inl NoApprovedChanges
      else
        (case split_all (ledger_expense_id ex) (ledger_items ex) rs of
           Inl err \<Rightarrow> Inl err
         | Inr cs \<Rightarrow>
             Inr \<lparr>split_item_changes = cs,
                  split_validation = reconciliation_validator (ledger_total ex) cs\<rparr>))"

subsection \<open>Example data\<close>

text \<open>The scenario of the specification: D joins Pizza, A leaves Pizza, both approved.\<close>

definition dinner :: ledger_expense where
  "dinner =
     \<lparr>ledger_expense_id = ''exp1'', ledger_description = ''Dinner'', ledger_total = 60,
      ledger_items = [pizza, soda]\<rparr>"

definition dinner_requests :: "ChangeRequest list" where
  "dinner_requests =
     [\<lparr>request_id = ''req1'', requester = ''D'', target_expense = ''exp1'',
       target_item = ''Pizza'', action = Join, lifecycle = Approved, admin_note = None,
       created_at = 1, processed_at = Some 3\<rparr>,
      \<lparr>request_id = ''req2'', requester = ''A'', target_expense = ''exp1'',
       target_item = ''Pizza'', action = Leave, lifecycle = Approved, admin_note = None,
       created_at = 2, processed_at = Some 3\<rparr>]"

text \<open>D asks to join Pizza and later to leave it again; both requests are approved.\<close>

definition undecided_requests :: "ChangeRequest list" where
  "undecided_requests =
     [\<lparr>request_id = ''req1'', requester = ''D'', target_expense = ''exp1'',
       target_item = ''Pizza'', action = Join, lifecycle = Approved, admin_note = None,
       created_at = 1, processed_at = Some 3\<rparr>,
      \<lparr>request_id = ''req2'', requester = ''D'', target_expense = ''exp1'',
       target_item = ''Pizza'', action = Leave, lifecycle = Approved, admin_note = None,
       created_at = 2, processed_at = Some 3\<rparr>]"

text \<open>A and B both leave Soda, which they alone share.\<close>

definition emptying_requests :: "ChangeRequest list" where
  "emptying_requests =
     [\<lparr>request_id = ''req1'', requester = ''A'', target_expense = ''exp1'',
       target_item = ''Soda'', action = Leave, lifecycle = Approved, admin_note = None,
       created_at = 1, processed_at = Some 3\<rparr>,
      \<lparr>request_id = ''req2'', requester = ''B'', target_expense = ''exp1'',
       target_item = ''Soda'', action = Leave, lifecycle = Approved, admin_note = None,
       created_at = 2, processed_at = Some 3\<rparr>]"

section \<open>Selecting an expense\<close>

text \<open>
  C4. For every expense identifier and every prior state, after \<^verbatim>\<open>handleExpenseSelect\<close> the
  approved-request set and the rejected-request set are empty, the preview is null and the
  workflow step is "decisions" (and the expense is the selected one); this is the state of
  the component after the click on the expense.
\<close>

theorem handleExpenseSelect_resets:
  "selectedRequests (handleExpenseSelect e s) = {} \<and>
   rejectedRequests (handleExpenseSelect e s) = {} \<and>
   preview (handleExpenseSelect e s) = None \<and>
   workflowStep (handleExpenseSelect e s) = Decisions \<and>
   selectedExpense (handleExpenseSelect e s) = Some e \<and>
   component (fire (ExpenseSelect e) sys) = handleExpenseSelect e (component sys)"
  by (simp add: handleExpenseSelect_def fire_def)

section \<open>Going back from the preview\<close>

text \<open>
  C5. "Go Back to Decisions" sets preview and commentPreview to null and the step to
  "decisions"; every other field of the state keeps its value, in particular the
  selectedRequests and rejectedRequests sets. No request is sent and no alert is shown.
\<close>

theorem goBackToDecisions_frame:
  "preview (goBackToDecisions s) = None \<and>
   commentPreview (goBackToDecisions s) = None \<and>
   workflowStep (goBackToDecisions s) = Decisions \<and>
   selectedRequests (goBackToDecisions s) = selectedRequests s \<and>
   rejectedRequests (goBackToDecisions s) = rejectedRequests s \<and>
   selectedExpense (goBackToDecisions s) = selectedExpense s \<and>
   groupedRequests (goBackToDecisions s) = groupedRequests s \<and>
   loading (goBackToDecisions s) = loading s \<and>
   processing (goBackToDecisions s) = processing s \<and>
   adminNotes (goBackToDecisions s) = adminNotes s \<and>
   expenseStatus (goBackToDecisions s) = expenseStatus s \<and>
   component (fire GoBack sys) = goBackToDecisions (component sys) \<and>
   pending (fire GoBack sys) = pending sys \<and>
   alerts (fire GoBack sys) = alerts sys"
  by (simp add: goBackToDecisions_def fire_def selectedExpense_effect_def)

section \<open>Running the component\<close>

lemma run_Nil: "run [] s = s"
  by (simp add: run_def)

lemma run_Cons: "run (ev # evs) s = run evs (step ev s)"
  by (simp add: run_def)


lemma checkExpenseStatus_sets:
  "selectedRequests (checkExpenseStatus r s) = selectedRequests s \<and>
   rejectedRequests (checkExpenseStatus r s) = rejectedRequests s \<and>
   preview (checkExpenseStatus r s) = preview s \<and>
   selectedExpense (checkExpenseStatus r s) = selectedExpense s"
  by (simp add: checkExpenseStatus_def Let_def split: fetch_result.splits option.splits)

lemma fetchGroupedRequests_sets:
  "selectedRequests (fetchGroupedRequests r s) = selectedRequests s \<and>
   rejectedRequests (fetchGroupedRequests r s) = rejectedRequests s \<and>
   workflowStep (fetchGroupedRequests r s) = workflowStep s"
  by (simp add: fetchGroupedRequests_def split: fetch_result.splits option.splits)

text \<open>The state after the list of expenses has arrived and the example expense is selected.\<close>

lemma selected_state:
  "run [GroupsArrived groups_ok, ExpenseSelect ''exp1''] initial_system =
     \<lparr>component =
        \<lparr>groupedRequests = [example_group], loading = False,
         selectedExpense = Some ''exp1'', selectedRequests = {}, rejectedRequests = {},
         preview = None, workflowStep = Decisions, processing = False, adminNotes = [],
         expenseStatus = None, commentPreview = None\<rparr>,
      pending = [StatusRequest], alerts = []\<rparr>"
  by (simp add: run_Nil run_Cons step_def enabled_def fire_def initial_system_def
      initial_state_def groups_ok_def ok_def fetchGroupedRequests_def handleExpenseSelect_def
      example_group_def selectedExpense_effect_def truthy_def)

text \<open>The state after the decision on the example request is committed.\<close>

lemma committed_state:
  "run [GroupsArrived groups_ok, ExpenseSelect ''exp1'',
        StatusArrived (status_ok ''needs_decisions''), Toggle ''req1'' Approve, CommitClick,
        CommitArrived commit_ok, CommitStatusArrived (status_ok ''ready_for_preview'')]
     initial_system =
     \<lparr>component =
        \<lparr>groupedRequests = [example_group], loading = False,
         selectedExpense = Some ''exp1'', selectedRequests = {''req1''},
         rejectedRequests = {}, preview = None, workflowStep = Preview,
         processing = False, adminNotes = [],
         expenseStatus = Some \<lparr>workflow_status = ''ready_for_preview''\<rparr>,
         commentPreview = None\<rparr>,
      pending = [],
      alerts = [check_mark @ '' Decisions committed successfully!'' @ newline
                  @ ''1 approved, 0 rejected'']\<rparr>"
proof -
  have "run [GroupsArrived groups_ok, ExpenseSelect ''exp1'',
        StatusArrived (status_ok ''needs_decisions''), Toggle ''req1'' Approve, CommitClick,
        CommitArrived commit_ok, CommitStatusArrived (status_ok ''ready_for_preview'')]
     initial_system =
     run [StatusArrived (status_ok ''needs_decisions''), Toggle ''req1'' Approve, CommitClick,
        CommitArrived commit_ok, CommitStatusArrived (status_ok ''ready_for_preview'')]
       (run [GroupsArrived groups_ok, ExpenseSelect ''exp1''] initial_system)"
    by (simp add: run_def)
  also have "\<dots> =
     \<lparr>component =
        \<lparr>groupedRequests = [example_group], loading = False,
         selectedExpense = Some ''exp1'', selectedRequests = {''req1''},
         rejectedRequests = {}, preview = None, workflowStep = Preview,
         processing = False, adminNotes = [],
         expenseStatus = Some \<lparr>workflow_status = ''ready_for_preview''\<rparr>,
         commentPreview = None\<rparr>,
      pending = [],
      alerts = [check_mark @ '' Decisions committed successfully!'' @ newline
                  @ ''1 approved, 0 rejected'']\<rparr>"
    unfolding selected_state
    by (simp add: run_Nil run_Cons step_def enabled_def fire_def
        status_ok_def commit_ok_def ok_def checkExpenseStatus_def example_group_def
        example_update_def selectedExpense_effect_def truthy_def decisions_panel_def
        selectedExpenseData_def commit_disabled_def commitDecisions_click_def
        commitDecisions_response_def commitDecisions_status_def)
  finally show ?thesis .
qed

text \<open>The admin's way to a preview leads to the preview stage.\<close>

lemma preview_stage_reached:
  "run (workflow_to_preview p) initial_system = preview_stage p"
proof -
  have "run (workflow_to_preview p) initial_system =
     run [PreviewClick, PreviewArrived (preview_ok p)]
       (run [GroupsArrived groups_ok, ExpenseSelect ''exp1'',
          StatusArrived (status_ok ''needs_decisions''), Toggle ''req1'' Approve, CommitClick,
          CommitArrived commit_ok, CommitStatusArrived (status_ok ''ready_for_preview'')]
        initial_system)"
    by (simp add: workflow_to_preview_def run_def)
  also have "\<dots> = preview_stage p"
    unfolding committed_state
    by (simp add: run_Nil run_Cons step_def enabled_def fire_def
        preview_ok_def ok_def example_group_def selectedExpense_effect_def truthy_def
        preview_panel_def selectedExpenseData_def previewSplitwiseChanges_click_def
        previewSplitwiseChanges_response_def preview_stage_def)
  finally show ?thesis .
qed

section \<open>When apply is available\<close>

text \<open>
  C1. In every state of BatchReviewComponent (hence in every reachable one) in which the
  preview is null or its validation does not report a match, the apply action is not
  available: the button is not rendered or is disabled, and the click cannot happen.
\<close>

theorem apply_needs_matching_preview:
  "preview (component s) = None \<or>
   (\<exists>p. preview (component s) = Some p \<and> \<not> total_matches (validation p)) \<Longrightarrow>
   \<not> apply_available (component s) \<and> \<not> enabled ApplyClick s \<and> step ApplyClick s = s"
  by (auto simp: apply_available_def apply_disabled_def step_def enabled_def)

theorem apply_needs_matching_preview_witness:
  "preview (component (run (workflow_to_preview failing_preview) initial_system))
     = Some failing_preview \<and>
   \<not> total_matches (validation failing_preview) \<and>
   \<not> apply_available (component (run (workflow_to_preview failing_preview) initial_system)) \<and>
   \<not> enabled ApplyClick (run (workflow_to_preview failing_preview) initial_system) \<and>
   step ApplyClick (run (workflow_to_preview failing_preview) initial_system) =
     run (workflow_to_preview failing_preview) initial_system"
proof -
  let ?s = "run (workflow_to_preview failing_preview) initial_system"
  have a: "preview (component ?s) = Some failing_preview"
    by (simp add: preview_stage_reached preview_stage_def)
  have b: "\<not> total_matches (validation failing_preview)"
    by (simp add: failing_preview_def)
  from a b have "preview (component ?s) = None \<or>
      (\<exists>p. preview (component ?s) = Some p \<and> \<not> total_matches (validation p))"
    by blast
  from apply_needs_matching_preview [OF this] a b
  show ?thesis by blast
qed


section \<open>The approved and the rejected set\<close>

lemma toggle_disjoint:
  "selectedRequests s \<inter> rejectedRequests s = {} \<Longrightarrow>
   selectedRequests (toggleRequestSelection i d s) \<inter>
   rejectedRequests (toggleRequestSelection i d s) = {}"
  by (cases d) auto

lemma handler_disjoint:
  assumes "selectedRequests s \<inter> rejectedRequests s = {}"
  shows "selectedRequests (fst (snd (handler ev s))) \<inter>
         rejectedRequests (fst (snd (handler ev s))) = {}"
proof (cases ev)
  case (Toggle i d)
  with assms show ?thesis
    by (simp add: toggle_disjoint del: toggleRequestSelection.simps)
next
  case (ExpenseSelect e)
  then show ?thesis by (simp add: handleExpenseSelect_def)
next
  case (GroupsArrived r)
  with assms show ?thesis by (simp add: fetchGroupedRequests_sets)
next
  case (StatusArrived r)
  with assms show ?thesis by (simp add: checkExpenseStatus_sets)
next
  case (CommitArrived r)
  with assms show ?thesis
    by (simp add: commitDecisions_response_def split: fetch_result.splits option.splits)
next
  case (CommitStatusArrived r)
  with assms show ?thesis by (simp add: commitDecisions_status_def checkExpenseStatus_sets)
next
  case (PreviewArrived r)
  with assms show ?thesis
    by (simp add: previewSplitwiseChanges_response_def
        split: fetch_result.splits option.splits)
next
  case (ApplyArrived r)
  with assms show ?thesis
    by (simp add: applyToSplitwiseAndMongoDB_response_def
        split: fetch_result.splits option.splits)
next
  case (ApplyStatusArrived r)
  with assms show ?thesis
    by (simp add: applyToSplitwiseAndMongoDB_status_def checkExpenseStatus_sets)
next
  case (ApplyGroupsArrived r)
  with assms show ?thesis
    by (simp add: applyToSplitwiseAndMongoDB_groups_def fetchGroupedRequests_sets)
next
  case (EditNotes v)
  with assms show ?thesis by (simp add: editAdminNotes_def)
next
  case CommitClick
  with assms show ?thesis by (simp add: commitDecisions_click_def)
next
  case PreviewClick
  with assms show ?thesis by (simp add: previewSplitwiseChanges_click_def)
next
  case ApplyClick
  with assms show ?thesis by (simp add: applyToSplitwiseAndMongoDB_click_def)
next
  case GoBack
  with assms show ?thesis by (simp add: goBackToDecisions_def)
next
  case ProcessAnother
  with assms show ?thesis by (simp add: processAnotherGroup_def)
qed

lemma component_fire: "component (fire ev s) = fst (snd (handler ev (component s)))"
  by (simp add: fire_def split: prod.splits)

lemma run_disjoint:
  "selectedRequests (component s) \<inter> rejectedRequests (component s) = {} \<Longrightarrow>
   selectedRequests (component (run evs s)) \<inter> rejectedRequests (component (run evs s)) = {}"
  unfolding run_def
  by (induction evs arbitrary: s) (simp_all add: step_def component_fire handler_disjoint)

text \<open>
  C8. In every reachable state of BatchReviewComponent the approved-request set and the
  rejected-request set are disjoint, so the body that commitDecisions posts never has a
  request identifier in both approved_request_ids and rejected_request_ids.
\<close>

theorem decision_sets_disjoint:
  "selectedRequests (component (run evs initial_system)) \<inter>
   rejectedRequests (component (run evs initial_system)) = {} \<and>
   approved_request_ids (commit_request_body e (component (run evs initial_system))) \<inter>
   rejected_request_ids (commit_request_body e (component (run evs initial_system))) = {}"
proof -
  have "selectedRequests (component initial_system) \<inter>
      rejectedRequests (component initial_system) = {}"
    by (simp add: initial_system_def initial_state_def)
  then have "selectedRequests (component (run evs initial_system)) \<inter>
      rejectedRequests (component (run evs initial_system)) = {}"
    by (rule run_disjoint)
  then show ?thesis by (simp add: commit_request_body_def)
qed

text \<open>
  The sets do get filled: approving the example request and then rejecting it moves it from
  the approved set to the rejected set.
\<close>

lemma toggle_example:
  "selectedRequests (component (run [GroupsArrived groups_ok, ExpenseSelect ''exp1'',
       Toggle ''req1'' Approve] initial_system)) = {''req1''} \<and>
   rejectedRequests (component (run [GroupsArrived groups_ok, ExpenseSelect ''exp1'',
       Toggle ''req1'' Approve, Toggle ''req1'' Reject] initial_system)) = {''req1''} \<and>
   selectedRequests (component (run [GroupsArrived groups_ok, ExpenseSelect ''exp1'',
       Toggle ''req1'' Approve, Toggle ''req1'' Reject] initial_system)) = {}"
proof -
  have a: "run [GroupsArrived groups_ok, ExpenseSelect ''exp1'', Toggle ''req1'' Approve]
        initial_system =
      run [Toggle ''req1'' Approve]
        (run [GroupsArrived groups_ok, ExpenseSelect ''exp1''] initial_system)"
    by (simp add: run_def)
  have b: "run [GroupsArrived groups_ok, ExpenseSelect ''exp1'', Toggle ''req1'' Approve,
        Toggle ''req1'' Reject] initial_system =
      run [Toggle ''req1'' Approve, Toggle ''req1'' Reject]
        (run [GroupsArrived groups_ok, ExpenseSelect ''exp1''] initial_system)"
    by (simp add: run_def)
  show ?thesis
    unfolding a b selected_state
    by (simp add: run_Nil run_Cons step_def enabled_def fire_def
        example_group_def example_update_def decisions_panel_def selectedExpenseData_def
        selectedExpense_effect_def)
qed

section \<open>The sequence of workflow steps\<close>


text \<open>
  "completed" is not a final step of the component: "Process Another Group" and the
  selection of an expense lead back to "decisions".
\<close>

lemma completed_is_left:
  "workflowStep (fst (snd (processAnotherGroup s))) = Decisions \<and>
   workflowStep (handleExpenseSelect e s) = Decisions"
  by (simp add: processAnotherGroup_def handleExpenseSelect_def)




section \<open>The alert of a failed apply\<close>




section \<open>Rounding to a double\<close>

lemma binade_bounds:
  assumes "0 < x"
  shows "2 powi binade x \<le> x \<and> x < 2 powi (binade x + 1)"
proof (cases "1 \<le> x")
  case True
  define n where "n = nat \<lfloor>x\<rfloor>"
  have n: "0 < n" using True by (simp add: n_def)
  have b: "2 ^ (floorlog 2 n - 1) \<le> n \<and> n < 2 ^ floorlog 2 n"
    using floorlog_bounds [of n 2] n by simp
  have fl: "0 < floorlog 2 n" using n by (simp add: floorlog_def)
  have e: "binade x = int (floorlog 2 n) - 1"
    using True by (simp add: binade_def n_def)
  have fx: "of_int \<lfloor>x\<rfloor> \<le> x" "x < of_int \<lfloor>x\<rfloor> + 1"
    by linarith+
  have "0 \<le> \<lfloor>x\<rfloor>" using True by simp
  then have "(of_nat n :: rat) = of_int \<lfloor>x\<rfloor>" by (simp add: n_def)
  with fx have nx: "of_nat n \<le> x" "x < of_nat n + 1"
    by simp_all
  have "(2::rat) powi binade x = 2 ^ (floorlog 2 n - 1)"
    using fl by (simp add: e power_int_def nat_diff_distrib)
  also have "\<dots> \<le> of_nat n"
    using b by (metis of_nat_le_iff of_nat_numeral of_nat_power)
  finally have lo: "2 powi binade x \<le> x" using nx by simp
  have "x < of_nat (n + 1)" using nx by simp
  also have "of_nat (n + 1) \<le> (of_nat (2 ^ floorlog 2 n) :: rat)"
    using b by (metis Suc_eq_plus1 Suc_leI of_nat_le_iff)
  also have "\<dots> = 2 powi (binade x + 1)"
    by (simp add: e power_int_def)
  finally show ?thesis using lo by simp
next
  case False
  define c where "c = \<lceil>1 / x\<rceil>"
  define n where "n = nat (c - 1)"
  have x1: "1 < 1 / x" using False assms by simp
  have c2: "2 \<le> c" using x1 unfolding c_def by linarith
  have n: "0 < n" using c2 by (simp add: n_def)
  have b: "2 ^ (floorlog 2 n - 1) \<le> n \<and> n < 2 ^ floorlog 2 n"
    using floorlog_bounds [of n 2] n by simp
  have fl: "0 < floorlog 2 n" using n by (simp add: floorlog_def)
  have e: "binade x = - int (floorlog 2 n)"
    using False by (simp add: binade_def n_def c_def)
  have cx: "of_int c - 1 < 1 / x" "1 / x \<le> of_int c"
    unfolding c_def by linarith+
  have nc: "of_nat n = (of_int c :: rat) - 1"
    using c2 by (simp add: n_def)
  define j where "j = floorlog 2 n"
  have j: "0 < j" using fl by (simp add: j_def)
  have p1: "(2::rat) powi binade x = 1 / 2 ^ j"
    by (simp add: e j_def power_int_minus_divide)
  have "binade x + 1 = - int (j - 1)"
    using j by (simp add: e j_def)
  then have p2: "(2::rat) powi (binade x + 1) = 1 / 2 ^ (j - 1)"
    by (simp add: power_int_minus_divide)
  have "of_nat (n + 1) \<le> (of_nat (2 ^ j) :: rat)"
    using b unfolding j_def by (metis Suc_eq_plus1 Suc_leI of_nat_le_iff)
  then have cj: "of_int c \<le> (2::rat) ^ j"
    using nc by simp
  have "(of_nat (2 ^ (j - 1)) :: rat) \<le> of_nat n"
    using b unfolding j_def by (metis of_nat_le_iff)
  then have nj: "(2::rat) ^ (j - 1) \<le> of_int c - 1"
    using nc by simp
  have "1 / x \<le> 2 ^ j" using cx cj by linarith
  then have "1 \<le> 2 ^ j * x" using assms by (simp add: field_simps)
  then have lo: "1 / 2 ^ j \<le> x" by (simp add: field_simps)
  have "2 ^ (j - 1) < 1 / x" using cx nj by linarith
  then have "2 ^ (j - 1) * x < 1" using assms by (simp add: field_simps)
  then have hi: "x < 1 / 2 ^ (j - 1)" by (simp add: field_simps)
  from lo hi show ?thesis by (simp add: p1 p2)
qed

lemma powi_less_cancel: "(2::rat) powi a < 2 powi b \<Longrightarrow> a < b"
proof (rule ccontr)
  assume a: "(2::rat) powi a < 2 powi b" and "\<not> a < b"
  then have "b \<le> a" by simp
  then have "(2::rat) powi b \<le> 2 powi a" by (intro power_int_increasing) simp_all
  with a show False by simp
qed

lemma binade_unique:
  assumes "0 < x" "2 powi e \<le> x" "x < 2 powi (e + 1)"
  shows "binade x = e"
proof -
  from binade_bounds [OF assms(1)]
  have b: "2 powi binade x \<le> x" "x < 2 powi (binade x + 1)" by simp_all
  have "(2::rat) powi e < 2 powi (binade x + 1)" using assms b by linarith
  then have 1: "e < binade x + 1" by (rule powi_less_cancel)
  have "(2::rat) powi binade x < 2 powi (e + 1)" using assms b by linarith
  then have 2: "binade x < e + 1" by (rule powi_less_cancel)
  from 1 2 show ?thesis by simp
qed

lemma round_half_even_error: "\<bar>of_int (round_half_even x) - x\<bar> \<le> 1 / 2"
  unfolding round_half_even_def by (auto simp: abs_if) linarith+

lemma round_half_even_le:
  assumes a: "x \<le> of_int k"
  shows "round_half_even x \<le> k"
proof -
  from a have f: "\<lfloor>x\<rfloor> \<le> k" by linarith
  show ?thesis
  proof (cases "\<lfloor>x\<rfloor> = k")
    case True
    with a have "x = of_int k" by linarith
    then show ?thesis by (simp add: round_half_even_def)
  next
    case False
    with f have "\<lfloor>x\<rfloor> + 1 \<le> k" by simp
    with f show ?thesis by (simp add: round_half_even_def)
  qed
qed

lemma ulp_exponent_cases:
  "ulp_exponent x = binade x - 52 \<and> - 1022 \<le> binade x \<or>
   ulp_exponent x = - 1074 \<and> binade x < - 1022"
  by (auto simp: ulp_exponent_def max_def)

text \<open>The error of rounding: half a unit in the last place.\<close>

lemma nearest_multiple_error:
  assumes "0 < x"
  shows "\<bar>nearest_multiple x - x\<bar> \<le> x / 2 ^ 53 + 1 / 2 ^ 1075"
proof -
  define u where "u = ulp_exponent x"
  define m where "m = round_half_even (x / 2 powi u)"
  have pu: "0 < (2::rat) powi u" by simp
  have "\<bar>of_int m - x / 2 powi u\<bar> \<le> 1 / 2"
    unfolding m_def by (rule round_half_even_error)
  then have "\<bar>of_int m - x / 2 powi u\<bar> * 2 powi u \<le> 1 / 2 * 2 powi u"
    using pu by (intro mult_right_mono) simp_all
  moreover have "\<bar>of_int m - x / 2 powi u\<bar> * 2 powi u = \<bar>of_int m * 2 powi u - x\<bar>"
    using pu by (simp add: abs_mult [symmetric] field_simps del: abs_mult)
  ultimately have "\<bar>of_int m * 2 powi u - x\<bar> \<le> 1 / 2 * 2 powi u"
    by (simp only:)
  then have err: "\<bar>nearest_multiple x - x\<bar> \<le> 2 powi u / 2"
    by (simp add: nearest_multiple_def u_def m_def)
  from binade_bounds [OF assms] have bx: "2 powi binade x \<le> x" by simp
  from ulp_exponent_cases [of x] show ?thesis
  proof
    assume a: "ulp_exponent x = binade x - 52 \<and> - 1022 \<le> binade x"
    have "(2::rat) powi u = 2 powi binade x / 2 powi 52"
      using a by (simp add: u_def power_int_diff)
    also have "\<dots> \<le> x / 2 ^ 52" using bx by (simp add: divide_right_mono)
    finally have "2 powi u / 2 \<le> x / 2 ^ 53" by simp
    with err show ?thesis by simp
  next
    assume a: "ulp_exponent x = - 1074 \<and> binade x < - 1022"
    have "(2::rat) powi u = 1 / 2 ^ 1074"
      using a by (simp add: u_def power_int_minus_divide)
    then have "2 powi u / 2 = 1 / (2::rat) ^ 1075" by simp
    with err assms show ?thesis by simp
  qed
qed

text \<open>Up to the greatest finite double nothing rounds to an infinity.\<close>

lemma nearest_multiple_finite:
  assumes "0 < x" "x \<le> max_double"
  shows "nearest_multiple x < 2 ^ 1024"
proof -
  define u where "u = ulp_exponent x"
  define m where "m = round_half_even (x / 2 powi u)"
  have pu: "0 < (2::rat) powi u" by simp
  from binade_bounds [OF assms(1)]
  have bx: "2 powi binade x \<le> x" "x < 2 powi (binade x + 1)" by simp_all
  have "max_double < 2 ^ 1024" by (simp add: max_double_def)
  with assms bx have "(2::rat) powi binade x < 2 powi 1024" by simp
  then have e: "binade x < 1024"
    by (rule powi_less_cancel)
  show ?thesis
  proof (cases "binade x = 1023")
    case True
    then have u: "u = 971" by (simp add: u_def ulp_exponent_def)
    have "x / 2 powi u \<le> of_int (2 ^ 53 - 1)"
      using assms by (simp add: u max_double_def field_simps)
    then have "m \<le> 2 ^ 53 - 1" unfolding m_def by (rule round_half_even_le)
    then have "(of_int m :: rat) \<le> of_int (2 ^ 53 - 1)" by (simp only: of_int_le_iff)
    then have "(of_int m :: rat) \<le> 2 ^ 53 - 1" by simp
    then have "of_int m * 2 powi u \<le> (2 ^ 53 - 1) * (2::rat) ^ 971"
      by (simp add: u)
    then show ?thesis by (simp add: nearest_multiple_def u_def [symmetric] m_def [symmetric])
  next
    case False
    with e have e': "binade x \<le> 1022" by simp
    have ux: "u \<le> 970" using e' by (auto simp: u_def ulp_exponent_def max_def)
    have "binade x + 1 \<le> u + 53" by (auto simp: u_def ulp_exponent_def max_def)
    then have "(2::rat) powi (binade x + 1) \<le> 2 powi (u + 53)"
      by (intro power_int_increasing) simp_all
    also have "\<dots> = 2 powi u * 2 ^ 53" by (simp add: power_int_add)
    finally have "x < 2 powi u * 2 ^ 53" using bx by simp
    then have "x / 2 powi u \<le> of_int (2 ^ 53)"
      using pu by (simp add: field_simps)
    then have "m \<le> 2 ^ 53" unfolding m_def by (rule round_half_even_le)
    then have "(of_int m :: rat) \<le> of_int (2 ^ 53)" by (simp only: of_int_le_iff)
    then have "(of_int m :: rat) \<le> 2 ^ 53" by simp
    then have "of_int m * 2 powi u \<le> 2 ^ 53 * (2::rat) powi u"
      using pu by (intro mult_right_mono) simp_all
    also have "(2::rat) powi u \<le> 2 powi 970"
      using ux by (intro power_int_increasing) simp_all
    finally have "of_int m * 2 powi u \<le> 2 ^ 53 * (2::rat) ^ 970" by simp
    then show ?thesis by (simp add: nearest_multiple_def u_def [symmetric] m_def [symmetric])
  qed
qed

lemma round_to_double_error:
  assumes "round_to_double q = Num d"
  shows "\<bar>d - q\<bar> \<le> \<bar>q\<bar> / 2 ^ 53 + 1 / 2 ^ 1075"
proof (cases "q = 0")
  case True
  with assms show ?thesis by (simp add: round_to_double_def)
next
  case False
  then have p: "0 < \<bar>q\<bar>" by simp
  from assms False have d: "d = sgn q * nearest_multiple \<bar>q\<bar>"
    by (simp add: round_to_double_def split: if_splits)
  have "\<bar>d - q\<bar> = \<bar>nearest_multiple \<bar>q\<bar> - \<bar>q\<bar>\<bar>"
    using False by (cases "q < 0") (simp_all add: d sgn_if abs_if)
  with nearest_multiple_error [OF p] show ?thesis by simp
qed

lemma round_to_double_finite:
  assumes "\<bar>q\<bar> \<le> max_double"
  shows "js_finite (round_to_double q)"
proof (cases "q = 0")
  case True
  then show ?thesis by (simp add: round_to_double_def)
next
  case False
  then have p: "0 < \<bar>q\<bar>" by simp
  from nearest_multiple_finite [OF p assms] False show ?thesis
    by (simp add: round_to_double_def)
qed

text \<open>How a quotient is evaluated: from its binade and the rounded significand.\<close>

lemma round_to_double_eqI:
  assumes "0 < q" "2 powi e \<le> q" "q < 2 powi (e + 1)" "- 1022 \<le> e"
    and "round_half_even (q / 2 powi (e - 52)) = m"
    and "of_int m * 2 powi (e - 52) = d" "d < 2 ^ 1024"
  shows "round_to_double q = Num d"
proof -
  have "binade q = e" using assms(1-3) by (rule binade_unique)
  then have "ulp_exponent q = e - 52" using assms(4) by (simp add: ulp_exponent_def)
  then have "nearest_multiple q = d" using assms(5,6) by (simp add: nearest_multiple_def)
  with assms(1,7) show ?thesis by (simp add: round_to_double_def)
qed

lemma floor_rat_numeral:
  "\<lfloor>numeral a / numeral b :: rat\<rfloor> = numeral a div numeral b"
  using floor_divide_of_int_eq [of "numeral a" "numeral b", where ?'a = rat] by simp

lemma powi_neg_numeral: "(2::rat) powi (- numeral n) = 1 / 2 ^ numeral n"
  by (simp add: power_int_minus_divide)

lemma round_to_double_ten_thirds:
  "round_to_double (10 / 3) = Num (7505999378950827 / 2251799813685248)"
  by (rule round_to_double_eqI [where e = 1 and m = 7505999378950827])
     (simp_all add: powi_neg_numeral round_half_even_def floor_rat_numeral)

lemma round_to_double_ten: "round_to_double 10 = Num 10"
  by (rule round_to_double_eqI [where e = 3 and m = 5629499534213120])
     (simp_all add: powi_neg_numeral round_half_even_def floor_rat_numeral)

section \<open>Two decimals\<close>

lemma hundredths_error:
  assumes "0 \<le> x"
  shows "\<bar>of_nat (hundredths x) / 100 - x\<bar> \<le> 1 / 200"
proof -
  define k where "k = \<lfloor>x * 100 + 1 / 2\<rfloor>"
  have "0 \<le> x * 100 + 1 / 2" using assms by simp
  then have "0 \<le> k" unfolding k_def by simp
  then have h: "(of_nat (hundredths x) :: rat) = of_int k"
    by (simp add: hundredths_def k_def)
  have "of_int k \<le> x * 100 + 1 / 2" "x * 100 + 1 / 2 < of_int k + 1"
    unfolding k_def by linarith+
  then show ?thesis unfolding h by (simp add: abs_if field_simps)
qed

lemma hundredths_eqI:
  "of_nat n \<le> x * 100 + 1 / 2 \<Longrightarrow> x * 100 + 1 / 2 < of_nat n + 1 \<Longrightarrow> hundredths x = n"
proof -
  assume "of_nat n \<le> x * 100 + 1 / 2" "x * 100 + 1 / 2 < of_nat n + 1"
  then have "\<lfloor>x * 100 + 1 / 2\<rfloor> = int n"
    by (intro floor_unique) simp_all
  then show ?thesis by (simp add: hundredths_def)
qed

lemma formatCurrency_Num:
  "\<bar>d\<bar> < 10 ^ 21 \<Longrightarrow>
     formatCurrency (Num d) =
       Text (''$'' @ (if d < 0 then ''-'' else [])
             @ decimal (hundredths \<bar>d\<bar> div 100) @ ''.''
             @ [digit_char (hundredths \<bar>d\<bar> mod 100 div 10), digit_char (hundredths \<bar>d\<bar> mod 10)])"
  by (simp add: formatCurrency_def toFixed2_def)

lemma formatCurrency_not_finite:
  "formatCurrency PosInfinity = Text ''$Infinity''"
  "formatCurrency NegInfinity = Text ''$-Infinity''"
  "formatCurrency NaN = Text ''$NaN''"
  by (simp_all add: formatCurrency_def toFixed2_def)

lemma formatCurrency_ten_thirds:
  "formatCurrency (Num (7505999378950827 / 2251799813685248)) = Text ''$3.33''"
proof -
  have "hundredths \<bar>7505999378950827 / 2251799813685248\<bar> = 333"
    by (rule hundredths_eqI) simp_all
  then show ?thesis
    by (simp add: formatCurrency_def toFixed2_def decimal.simps digit_char_def)
qed

lemma formatCurrency_ten: "formatCurrency (Num 10) = Text ''$10.00''"
proof -
  have "hundredths \<bar>10\<bar> = 1000"
    by (rule hundredths_eqI) simp_all
  then show ?thesis
    by (simp add: formatCurrency_def toFixed2_def decimal.simps digit_char_def)
qed

section \<open>The amounts of the views\<close>

lemma js_divide_members:
  "members it \<noteq> [] \<Longrightarrow>
     js_divide (price it) (of_nat (length (members it)))
       = round_to_double (price it / of_nat (length (members it)))"
  by (simp add: js_divide_def)

lemma share_finite:
  assumes "members it \<noteq> []" "\<bar>price it\<bar> \<le> max_double"
  shows "js_finite (js_divide (price it) (of_nat (length (members it))))"
proof -
  define n where "n = length (members it)"
  have n: "1 \<le> (of_nat n :: rat)" using assms(1) by (cases "members it") (simp_all add: n_def)
  then have "\<bar>price it\<bar> / of_nat n \<le> \<bar>price it\<bar> / 1"
    by (intro divide_left_mono) simp_all
  then have "\<bar>price it / of_nat n\<bar> \<le> max_double"
    using assms(2) by simp
  then have "js_finite (round_to_double (price it / of_nat n))"
    by (rule round_to_double_finite)
  then show ?thesis using assms(1) by (simp add: js_divide_def n_def)
qed

lemma split_detail_cards:
  "map (\<lambda>c. (card_item c, per_person c, you_owe c)) (split_detail_items me sp)
     = map (\<lambda>it. (it, formatCurrency (splitAmount it),
                  if me \<in> set (members it) then Some (formatCurrency (splitAmount it)) else None))
         (items sp)"
  by (simp add: split_detail_items_def item_card_of_def isParticipating_def comp_def)

lemma your_items_rows:
  "map (\<lambda>r. (row_item r, share r)) (your_items me sp)
     = map (\<lambda>it. (it, formatCurrency (js_divide (price it) (of_nat (length (members it))))))
         (filter (\<lambda>it. me \<in> set (members it)) (items sp))"
  by (simp add: your_items_def your_item_of_def comp_def)

lemma taxi_amount: "splitAmount taxi = Num (7505999378950827 / 2251799813685248)"
  using round_to_double_ten_thirds by (simp add: splitAmount_def js_divide_def taxi_def)

lemma pizza_amount: "splitAmount pizza = Num 10"
  using round_to_double_ten by (simp add: splitAmount_def js_divide_def pizza_def)

lemma orphan_amount: "splitAmount orphan = PosInfinity"
  by (simp add: splitAmount_def js_divide_def orphan_def)

section \<open>The per-person amount of an item\<close>

text \<open>
  C7, as stated, fails where the quotient is not a number of two decimals: for an item of
  price 10 shared by three members the division gives the double nearest to 10 / 3
  (3.3333333333333335), and both views display "$3.33", which is not the price divided by
  the number of members.
\<close>

theorem taxi_share_is_rounded:
  "members taxi \<noteq> [] \<and>
   map per_person (split_detail_items ''A'' (split_of [taxi])) = [Text ''$3.33''] \<and>
   map share (your_items ''A'' (split_of [taxi])) = [Text ''$3.33''] \<and>
   splitAmount taxi = Num (7505999378950827 / 2251799813685248) \<and>
   (7505999378950827 / 2251799813685248 :: rat) \<noteq> price taxi / of_nat (length (members taxi)) \<and>
   (333 / 100 :: rat) \<noteq> price taxi / of_nat (length (members taxi))"
proof -
  have a: "map per_person (split_detail_items ''A'' (split_of [taxi])) = [Text ''$3.33'']"
    using taxi_amount formatCurrency_ten_thirds
    by (simp add: split_detail_items_def item_card_of_def split_of_def)
  have "js_divide (price taxi) (of_nat (length (members taxi)))
      = Num (7505999378950827 / 2251799813685248)"
    using taxi_amount by (simp add: splitAmount_def)
  then have b: "map share (your_items ''A'' (split_of [taxi])) = [Text ''$3.33'']"
    using formatCurrency_ten_thirds
    by (simp add: your_items_def your_item_of_def split_of_def) (simp add: taxi_def)
  have c: "members taxi \<noteq> []"
    by (simp add: taxi_def)
  have d: "(7505999378950827 / 2251799813685248 :: rat)
      \<noteq> price taxi / of_nat (length (members taxi))"
    by (simp add: taxi_def)
  have e: "(333 / 100 :: rat) \<noteq> price taxi / of_nat (length (members taxi))"
    by (simp add: taxi_def)
  from a b c d e taxi_amount show ?thesis by simp
qed

text \<open>
  C7, amended. The split-detail view shows a card for every item of the split, and the
  dashboard's "Your Items" list a row for every item whose member list includes the viewer,
  and for no other. The per-person amount displayed there (in the split-detail view also as
  "You owe", for a participant) is formatCurrency of the JavaScript quotient
  item.price / item.members.length. For a non-empty member list this quotient is the price
  divided by the number of members, rounded to the nearest double: it differs from the exact
  quotient by at most the fraction 2^-53 of it plus 2^-1075. formatCurrency displays a double
  below 10^21 with two decimals, the nearest hundredth, at most half a cent from the double.
\<close>

theorem per_person_amount:
  "map (\<lambda>c. (card_item c, per_person c, you_owe c)) (split_detail_items me sp)
     = map (\<lambda>it. (it, formatCurrency (splitAmount it),
                  if me \<in> set (members it) then Some (formatCurrency (splitAmount it)) else None))
         (items sp) \<and>
   map (\<lambda>r. (row_item r, share r)) (your_items me sp)
     = map (\<lambda>it. (it, formatCurrency (splitAmount it)))
         (filter (\<lambda>it. me \<in> set (members it)) (items sp)) \<and>
   (members it \<noteq> [] \<longrightarrow>
      splitAmount it = round_to_double (price it / of_nat (length (members it)))) \<and>
   (round_to_double q = Num d \<longrightarrow> \<bar>d - q\<bar> \<le> \<bar>q\<bar> / 2 ^ 53 + 1 / 2 ^ 1075) \<and>
   (\<bar>d\<bar> < 10 ^ 21 \<longrightarrow>
      formatCurrency (Num d) =
        Text (''$'' @ (if d < 0 then ''-'' else [])
              @ decimal (hundredths \<bar>d\<bar> div 100) @ ''.''
              @ [digit_char (hundredths \<bar>d\<bar> mod 100 div 10),
                 digit_char (hundredths \<bar>d\<bar> mod 10)]) \<and>
      \<bar>of_nat (hundredths \<bar>d\<bar>) / 100 - \<bar>d\<bar>\<bar> \<le> 1 / 200)"
proof -
  have 1: "map (\<lambda>c. (card_item c, per_person c, you_owe c)) (split_detail_items me sp)
      = map (\<lambda>it. (it, formatCurrency (splitAmount it),
                   if me \<in> set (members it) then Some (formatCurrency (splitAmount it))
                   else None))
          (items sp)"
    by (rule split_detail_cards)
  have 2: "map (\<lambda>r. (row_item r, share r)) (your_items me sp)
      = map (\<lambda>it. (it, formatCurrency (splitAmount it)))
          (filter (\<lambda>it. me \<in> set (members it)) (items sp))"
    using your_items_rows [of me sp] by (simp add: splitAmount_def)
  have 3: "members it \<noteq> [] \<longrightarrow>
      splitAmount it = round_to_double (price it / of_nat (length (members it)))"
    by (simp add: splitAmount_def js_divide_members)
  have 4: "round_to_double q = Num d \<longrightarrow> \<bar>d - q\<bar> \<le> \<bar>q\<bar> / 2 ^ 53 + 1 / 2 ^ 1075"
    using round_to_double_error [of q d] by blast
  have 5: "\<bar>d\<bar> < 10 ^ 21 \<longrightarrow>
      formatCurrency (Num d) =
        Text (''$'' @ (if d < 0 then ''-'' else [])
              @ decimal (hundredths \<bar>d\<bar> div 100) @ ''.''
              @ [digit_char (hundredths \<bar>d\<bar> mod 100 div 10),
                 digit_char (hundredths \<bar>d\<bar> mod 10)]) \<and>
      \<bar>of_nat (hundredths \<bar>d\<bar>) / 100 - \<bar>d\<bar>\<bar> \<le> 1 / 200"
    using formatCurrency_Num [of d] hundredths_error [of "\<bar>d\<bar>"] by simp
  from 1 2 3 4 5 show ?thesis by (intro conjI)
qed

theorem per_person_amount_witness:
  "members taxi \<noteq> [] \<and>
   splitAmount taxi = round_to_double (price taxi / of_nat (length (members taxi))) \<and>
   round_to_double (10 / 3) = Num (7505999378950827 / 2251799813685248) \<and>
   \<bar>7505999378950827 / 2251799813685248 - 10 / 3\<bar> \<le> \<bar>10 / 3 :: rat\<bar> / 2 ^ 53 + 1 / 2 ^ 1075 \<and>
   \<bar>7505999378950827 / 2251799813685248 :: rat\<bar> < 10 ^ 21 \<and>
   formatCurrency (Num (7505999378950827 / 2251799813685248)) = Text ''$3.33'' \<and>
   \<bar>of_nat (hundredths \<bar>7505999378950827 / 2251799813685248\<bar>) / 100
      - \<bar>7505999378950827 / 2251799813685248 :: rat\<bar>\<bar> \<le> 1 / 200"
proof -
  note t = per_person_amount
    [of "''A''" "split_of [taxi, soda]" taxi "10 / 3" "7505999378950827 / 2251799813685248"]
  have a: "members taxi \<noteq> []"
    by (simp add: taxi_def)
  have b: "round_to_double (10 / 3) = Num (7505999378950827 / 2251799813685248)"
    by (rule round_to_double_ten_thirds)
  have c: "\<bar>7505999378950827 / 2251799813685248 :: rat\<bar> < 10 ^ 21"
    by simp
  from t a
  have d: "splitAmount taxi = round_to_double (price taxi / of_nat (length (members taxi)))"
    by blast
  from t b
  have e: "\<bar>7505999378950827 / 2251799813685248 - 10 / 3\<bar>
      \<le> \<bar>10 / 3 :: rat\<bar> / 2 ^ 53 + 1 / 2 ^ 1075"
    by blast
  from t c
  have f: "\<bar>of_nat (hundredths \<bar>7505999378950827 / 2251799813685248\<bar>) / 100
      - \<bar>7505999378950827 / 2251799813685248 :: rat\<bar>\<bar> \<le> 1 / 200"
    by blast
  from a b c d e f formatCurrency_ten_thirds show ?thesis by (intro conjI)
qed

section \<open>An item without members\<close>

text \<open>
  C9, as stated, fails for the dashboard: its "Your Items" list keeps only the items whose
  member list includes the viewer, so an item with an empty member list is not shown and no
  amount is computed for it.
\<close>

theorem dashboard_hides_memberless_item:
  "members orphan = [] \<and>
   map row_item (your_items ''A'' (split_of [pizza, orphan])) = [pizza] \<and>
   map share (your_items ''A'' (split_of [pizza, orphan])) = [Text ''$10.00'']"
proof -
  have "js_divide (price pizza) (of_nat (length (members pizza))) = Num 10"
    using pizza_amount by (simp add: splitAmount_def)
  then have "your_items ''A'' (split_of [pizza, orphan])
      = [\<lparr>row_item = pizza, shared_with = 3, share = Text ''$10.00'',
          of_total = formatCurrency (Num 30)\<rparr>]"
    using formatCurrency_ten
    by (simp add: your_items_def your_item_of_def split_of_def orphan_def)
       (simp add: pizza_def)
  then show ?thesis by (simp add: orphan_def)
qed

text \<open>
  C9, amended. The split-detail view shows a card for every item of the split and divides the
  price by the member count with no guard for emptiness: for an item whose member list is
  empty the division is a division by zero, the amount is not a finite number and is
  displayed as "$Infinity", "$-Infinity" or "$NaN" by the sign of the price; so a finite
  amount requires a non-empty member list, and with one the amount of a finite price is
  finite. The dashboard shows exactly the items whose member list includes the viewer: an
  item with an empty member list is never shown there, and every share that it displays is
  the quotient by a non-zero count, finite for a finite price.
\<close>

theorem memberless_item_amount:
  "map card_item (split_detail_items me sp) = items sp \<and>
   (c \<in> set (split_detail_items me sp) \<longrightarrow>
      per_person c = formatCurrency (splitAmount (card_item c))) \<and>
   (members it = [] \<longrightarrow>
      \<not> js_finite (splitAmount it) \<and>
      formatCurrency (splitAmount it) =
        Text (if 0 < price it then ''$Infinity''
              else if price it < 0 then ''$-Infinity'' else ''$NaN'')) \<and>
   (js_finite (splitAmount it) \<longrightarrow> members it \<noteq> []) \<and>
   (members it \<noteq> [] \<and> \<bar>price it\<bar> \<le> max_double \<longrightarrow> js_finite (splitAmount it)) \<and>
   map row_item (your_items me sp) = filter (\<lambda>it. me \<in> set (members it)) (items sp) \<and>
   (r \<in> set (your_items me sp) \<longrightarrow>
      me \<in> set (members (row_item r)) \<and> members (row_item r) \<noteq> [] \<and>
      share r = formatCurrency (splitAmount (row_item r)) \<and>
      (\<bar>price (row_item r)\<bar> \<le> max_double \<longrightarrow> js_finite (splitAmount (row_item r))))"
proof -
  have 1: "map card_item (split_detail_items me sp) = items sp"
    by (simp add: split_detail_items_def item_card_of_def comp_def)
  have 2: "c \<in> set (split_detail_items me sp) \<longrightarrow>
      per_person c = formatCurrency (splitAmount (card_item c))"
    by (auto simp: split_detail_items_def item_card_of_def)
  have 3: "members it = [] \<longrightarrow>
      \<not> js_finite (splitAmount it) \<and>
      formatCurrency (splitAmount it) =
        Text (if 0 < price it then ''$Infinity''
              else if price it < 0 then ''$-Infinity'' else ''$NaN'')"
    by (simp add: splitAmount_def js_divide_def formatCurrency_not_finite)
  then have 4: "js_finite (splitAmount it) \<longrightarrow> members it \<noteq> []"
    by blast
  have 5: "members it \<noteq> [] \<and> \<bar>price it\<bar> \<le> max_double \<longrightarrow> js_finite (splitAmount it)"
    using share_finite [of it] by (simp add: splitAmount_def)
  have 6: "map row_item (your_items me sp) = filter (\<lambda>it. me \<in> set (members it)) (items sp)"
    by (simp add: your_items_def your_item_of_def comp_def)
  have 7: "r \<in> set (your_items me sp) \<longrightarrow>
      me \<in> set (members (row_item r)) \<and> members (row_item r) \<noteq> [] \<and>
      share r = formatCurrency (splitAmount (row_item r)) \<and>
      (\<bar>price (row_item r)\<bar> \<le> max_double \<longrightarrow> js_finite (splitAmount (row_item r)))"
  proof
    assume "r \<in> set (your_items me sp)"
    then obtain i where i: "r = your_item_of i" "me \<in> set (members i)"
      by (auto simp: your_items_def)
    then have m: "members i \<noteq> []" by auto
    have "row_item r = i" "share r = formatCurrency (splitAmount i)"
      by (simp_all add: i your_item_of_def splitAmount_def)
    with i m share_finite [of i] show
      "me \<in> set (members (row_item r)) \<and> members (row_item r) \<noteq> [] \<and>
       share r = formatCurrency (splitAmount (row_item r)) \<and>
       (\<bar>price (row_item r)\<bar> \<le> max_double \<longrightarrow> js_finite (splitAmount (row_item r)))"
      by (simp add: splitAmount_def)
  qed
  from 1 2 3 4 5 6 7 show ?thesis by (intro conjI)
qed

theorem memberless_item_amount_witness:
  "members orphan = [] \<and>
   item_card_of ''A'' orphan \<in> set (split_detail_items ''A'' (split_of [pizza, orphan])) \<and>
   per_person (item_card_of ''A'' orphan) = Text ''$Infinity'' \<and>
   \<not> js_finite (splitAmount orphan) \<and>
   members pizza \<noteq> [] \<and> \<bar>price pizza\<bar> \<le> max_double \<and> js_finite (splitAmount pizza) \<and>
   your_item_of pizza \<in> set (your_items ''A'' (split_of [pizza, orphan])) \<and>
   ''A'' \<in> set (members (row_item (your_item_of pizza))) \<and>
   share (your_item_of pizza) = Text ''$10.00''"
proof -
  note t = memberless_item_amount
    [of "''A''" "split_of [pizza, orphan]" "item_card_of ''A'' orphan" orphan
      "your_item_of pizza"]
  note u = memberless_item_amount
    [of "''A''" "split_of [pizza, orphan]" "item_card_of ''A'' orphan" pizza
      "your_item_of pizza"]
  have a: "members orphan = []"
    by (simp add: orphan_def)
  have b: "item_card_of ''A'' orphan
      \<in> set (split_detail_items ''A'' (split_of [pizza, orphan]))"
    by (simp add: split_detail_items_def split_of_def)
  have c: "members pizza \<noteq> []" "\<bar>price pizza\<bar> \<le> max_double"
    by (simp_all add: pizza_def max_double_def)
  have d: "your_item_of pizza \<in> set (your_items ''A'' (split_of [pizza, orphan]))"
    by (simp add: your_items_def split_of_def pizza_def)
  from t b
  have "per_person (item_card_of ''A'' orphan)
      = formatCurrency (splitAmount (card_item (item_card_of ''A'' orphan)))"
    by blast
  then have e: "per_person (item_card_of ''A'' orphan) = Text ''$Infinity''"
    using orphan_amount by (simp add: item_card_of_def formatCurrency_not_finite)
  from t a have f: "\<not> js_finite (splitAmount orphan)"
    by blast
  from u c have g: "js_finite (splitAmount pizza)"
    by blast
  from t d
  have h: "''A'' \<in> set (members (row_item (your_item_of pizza)))"
    "share (your_item_of pizza) = formatCurrency (splitAmount (row_item (your_item_of pizza)))"
    by blast+
  from h(2) have i: "share (your_item_of pizza) = Text ''$10.00''"
    using pizza_amount formatCurrency_ten by (simp add: your_item_of_def)
  from a b c d e f g h(1) i show ?thesis by (intro conjI)
qed

section \<open>The access decision of the admin page\<close>

text \<open>
  Before the user is loaded \<^verbatim>\<open>checkAdminStatus\<close> returns without a probe and, through its
  \<^verbatim>\<open>finally\<close> block, ends the loading state with \<^verbatim>\<open>isAdmin\<close> still null. The page is not
  run in that state: \<^verbatim>\<open>MyApp\<close> mounts every page inside \<^verbatim>\<open><SignedIn>\<close>, whose children
  are rendered only once the user is loaded, so \<^verbatim>\<open>useUser\<close> gives \<^verbatim>\<open>isLoaded\<close> true from
  the first run of the effect.
\<close>

lemma checkAdminStatus_not_loaded:
  "checkAdminStatus False res admin_initial = \<lparr>isAdmin = None, admin_loading = False\<rparr>"
  by (simp add: checkAdminStatus_def admin_initial_def)

lemma admin_access_after_probe:
  "admin_render (checkAdminStatus True res s) =
     (case res of
        Thrown \<Rightarrow> AccessDenied
      | Response r \<Rightarrow> if ok r then AdminDashboard else AccessDenied)"
  by (simp add: admin_render_def checkAdminStatus_def ok_def split: fetch_result.splits)

text \<open>
  C10. With the user loaded, as the page is mounted, the view is decided by the outcome of
  the probe alone, whatever the state before: the spinner is shown until the probe is
  answered; then AdminDashboard is rendered iff the response is OK, and Access Denied for a
  403, for any other status that is not OK and for a thrown error.
\<close>

theorem admin_access_fail_closed:
  "isLoaded \<Longrightarrow>
     admin_render admin_initial = Spinner \<and>
     (admin_render (checkAdminStatus isLoaded res s) = AdminDashboard
        \<longleftrightarrow> (\<exists>r. res = Response r \<and> ok r)) \<and>
     (admin_render (checkAdminStatus isLoaded res s) = AccessDenied
        \<longleftrightarrow> \<not> (\<exists>r. res = Response r \<and> ok r)) \<and>
     (res = Thrown \<longrightarrow> admin_render (checkAdminStatus isLoaded res s) = AccessDenied) \<and>
     (res = Response r \<and> status r = 403 \<longrightarrow>
        admin_render (checkAdminStatus isLoaded res s) = AccessDenied) \<and>
     (res = Response r \<and> \<not> ok r \<longrightarrow>
        admin_render (checkAdminStatus isLoaded res s) = AccessDenied)"
proof -
  assume "isLoaded"
  then have l: "isLoaded = True" by simp
  have 0: "admin_render admin_initial = Spinner"
    by (simp add: admin_render_def admin_initial_def)
  have 1: "admin_render (checkAdminStatus isLoaded res s) = AdminDashboard
      \<longleftrightarrow> (\<exists>r. res = Response r \<and> ok r)"
    unfolding l admin_access_after_probe by (cases res) simp_all
  have 2: "admin_render (checkAdminStatus isLoaded res s) = AccessDenied
      \<longleftrightarrow> \<not> (\<exists>r. res = Response r \<and> ok r)"
    unfolding l admin_access_after_probe by (cases res) simp_all
  have 3: "res = Thrown \<longrightarrow> admin_render (checkAdminStatus isLoaded res s) = AccessDenied"
    unfolding l admin_access_after_probe by simp
  have 4: "res = Response r \<and> status r = 403 \<longrightarrow>
      admin_render (checkAdminStatus isLoaded res s) = AccessDenied"
    unfolding l admin_access_after_probe by (simp add: ok_def)
  have 5: "res = Response r \<and> \<not> ok r \<longrightarrow>
      admin_render (checkAdminStatus isLoaded res s) = AccessDenied"
    unfolding l admin_access_after_probe by simp
  from 0 1 2 3 4 5 show ?thesis by (intro conjI)
qed

theorem admin_access_fail_closed_witness:
  "admin_render admin_initial = Spinner \<and>
   ok \<lparr>status = 200, json = None :: unit json_body option\<rparr> \<and>
   admin_render
     (checkAdminStatus True (Response \<lparr>status = 200, json = None\<rparr>) admin_initial)
     = AdminDashboard \<and>
   admin_render
     (checkAdminStatus True (Response \<lparr>status = 403, json = None\<rparr>) admin_initial)
     = AccessDenied \<and>
   \<not> ok \<lparr>status = 500, json = None :: unit json_body option\<rparr> \<and>
   admin_render
     (checkAdminStatus True (Response \<lparr>status = 500, json = None\<rparr>) admin_initial)
     = AccessDenied \<and>
   admin_render (checkAdminStatus True Thrown admin_initial) = AccessDenied"
proof -
  have a: "ok \<lparr>status = 200, json = None :: unit json_body option\<rparr>"
    by (simp add: ok_def)
  have b: "\<not> ok \<lparr>status = 500, json = None :: unit json_body option\<rparr>"
    by (simp add: ok_def)
  from admin_access_fail_closed
    [of True "Response \<lparr>status = 200, json = None\<rparr>" admin_initial
      "\<lparr>status = 200, json = None\<rparr>"] a
  have c: "admin_render admin_initial = Spinner"
    "admin_render
       (checkAdminStatus True (Response \<lparr>status = 200, json = None\<rparr>) admin_initial)
       = AdminDashboard"
    by blast+
  from admin_access_fail_closed
    [of True "Response \<lparr>status = 403, json = None\<rparr>" admin_initial
      "\<lparr>status = 403, json = None\<rparr>"]
  have d: "admin_render
       (checkAdminStatus True (Response \<lparr>status = 403, json = None\<rparr>) admin_initial)
       = AccessDenied"
    by simp
  from admin_access_fail_closed
    [of True "Response \<lparr>status = 500, json = None\<rparr>" admin_initial
      "\<lparr>status = 500, json = None\<rparr>"] b
  have e: "admin_render
       (checkAdminStatus True (Response \<lparr>status = 500, json = None\<rparr>) admin_initial)
       = AccessDenied"
    by blast
  from admin_access_fail_closed [of True Thrown admin_initial "\<lparr>status = 500, json = None\<rparr>"]
  have f: "admin_render (checkAdminStatus True Thrown admin_initial) = AccessDenied"
    by simp
  from a b c d e f show ?thesis by (intro conjI)
qed

section \<open>The reconciliation invariant\<close>

lemma split_calculator_share:
  "split_calculator it rs = Inr c \<Longrightarrow>
   new_split_per_person c * of_nat (length (new_members c)) = price it"
  by (auto simp: split_calculator_def Let_def split: if_splits)

lemma split_all_total:
  "split_all e its rs = Inr cs \<Longrightarrow> aggregate_new_total cs = sum_list (map price its)"
proof (induction its arbitrary: cs)
  case Nil
  then show ?case by (simp add: aggregate_new_total_def)
next
  case (Cons it its)
  from Cons.prems obtain c cs' where
    c: "split_calculator it (approved_for e it rs) = Inr c" and
    cs': "split_all e its rs = Inr cs'" and
    eq: "cs = c # cs'"
    by (auto split: sum.splits)
  from Cons.IH [OF cs'] have "aggregate_new_total cs' = sum_list (map price its)" .
  with split_calculator_share [OF c] eq show ?case
    by (simp add: aggregate_new_total_def)
qed

text \<open>The scenario of the specification, computed.\<close>

lemma dinner_preview:
  "previewChanges dinner dinner_requests =
     Inr \<lparr>split_item_changes =
        [\<lparr>item_name = ''Pizza'', original_members = [''A'', ''B'', ''C''],
            new_members = [''B'', ''C'', ''D''], added_members = [''D''],
            removed_members = [''A''], item_price = 30,
            original_split_per_person = 10, new_split_per_person = 10,
            member_count_change = 0\<rparr>,
         \<lparr>item_name = ''Soda'', original_members = [''A'', ''B''],
            new_members = [''A'', ''B''], added_members = [],
            removed_members = [], item_price = 30,
            original_split_per_person = 15, new_split_per_person = 15,
            member_count_change = 0\<rparr>],
        split_validation =
          \<lparr>total_matches = True, original_total = 60, new_total = 60,
             difference = 0\<rparr>\<rparr>"
  by (simp add: previewChanges_def dinner_def dinner_requests_def pizza_def soda_def
      approved_for_def split_calculator_def new_member_set_def winning_requests_def
      later_than_def reconciliation_validator_def aggregate_new_total_def one_cent_def Let_def)

text \<open>The later request of a requester wins: D, who joined and then left, is no member.\<close>

lemma later_request_wins_example:
  "new_member_set pizza (approved_for ''exp1'' pizza undecided_requests) = [''A'', ''B'', ''C'']"
  by (simp add: new_member_set_def approved_for_def winning_requests_def later_than_def
      undecided_requests_def pizza_def Let_def)

text \<open>An item left without members is an error, and no preview is computed.\<close>

lemma last_member_leaving_example:
  "previewChanges dinner emptying_requests = Inl (ItemWithoutMembers ''Soda'')"
  by (simp add: previewChanges_def dinner_def emptying_requests_def pizza_def soda_def
      approved_for_def split_calculator_def new_member_set_def winning_requests_def
      later_than_def Let_def)

text \<open>
  C2. For an expense whose total is the sum of its item prices, and every set of approved
  join/leave requests for which the preview is computed (no item is left without members):
  the sum over the items of new_split_per_person times the number of new members equals the
  original expense total, so it is within the one-cent tolerance, and the validation result
  reports this comparison: original_total is the expense total, new_total the aggregate,
  difference 0 and total_matches true.
\<close>

theorem reconciliation_invariant:
  assumes "ledger_total ex = sum_list (map price (ledger_items ex))"
      and "previewChanges ex rs = Inr p"
  shows "aggregate_new_total (split_item_changes p) = ledger_total ex \<and>
         \<bar>aggregate_new_total (split_item_changes p) - ledger_total ex\<bar> \<le> one_cent \<and>
         split_validation p =
           \<lparr>total_matches = True, original_total = ledger_total ex,
            new_total = aggregate_new_total (split_item_changes p), difference = 0\<rparr>"
proof -
  from assms(2) obtain cs where
    cs: "split_all (ledger_expense_id ex) (ledger_items ex) rs = Inr cs" and
    p: "p = \<lparr>split_item_changes = cs,
             split_validation = reconciliation_validator (ledger_total ex) cs\<rparr>"
    by (auto simp: previewChanges_def split: if_splits sum.splits)
  from split_all_total [OF cs] assms(1) have "aggregate_new_total cs = ledger_total ex"
    by simp
  with p show ?thesis
    by (simp add: reconciliation_validator_def one_cent_def)
qed

theorem reconciliation_invariant_witness:
  "ledger_total dinner = sum_list (map price (ledger_items dinner)) \<and>
   (\<exists>p. previewChanges dinner dinner_requests = Inr p \<and>
        aggregate_new_total (split_item_changes p) = 60 \<and>
        total_matches (split_validation p) \<and>
        new_total (split_validation p) = 60 \<and>
        map new_members (split_item_changes p) = [[''B'', ''C'', ''D''], [''A'', ''B'']])"
proof -
  have a: "ledger_total dinner = sum_list (map price (ledger_items dinner))"
    by (simp add: dinner_def pizza_def soda_def)
  obtain p where p: "previewChanges dinner dinner_requests = Inr p" and
    m: "map new_members (split_item_changes p) = [[''B'', ''C'', ''D''], [''A'', ''B'']]"
    using dinner_preview by simp
  have t: "ledger_total dinner = 60"
    by (simp add: dinner_def)
  from reconciliation_invariant [OF a p] t
  have "aggregate_new_total (split_item_changes p) = 60 \<and>
        total_matches (split_validation p) \<and> new_total (split_validation p) = 60"
    by simp
  with a p m show ?thesis by auto
qed

end
